theory Spec2Isabelle
  imports
    Complex_Main
    "HOL-Library.Char_ord"
    "HOL-Library.List_Lexorder"
    "HOL-Library.AList"
    "HOL-Library.Multiset"
begin

section \<open>Conventions of the embedding\<close>

text \<open>
  The theory embeds the quantity engine of
  \<^verbatim>\<open>edsnlp/pipes/misc/quantities/quantities.py\<close>.

  \<^item> Python numbers (the \<^verbatim>\<open>float\<close> scales and values, the \<^verbatim>\<open>int\<close> degrees) are
    exact: scales and values are \<^typ>\<open>rat\<close>, degrees and token offsets are \<^typ>\<open>int\<close>.
    Rounding of binary floating point is outside the model.
  \<^item> Strings are \<^typ>\<open>string\<close>; unit keys are taken in NFKC normal form, on which
    \<^verbatim>\<open>unicodedata.normalize("NFKC", k)\<close> is the identity.
  \<^item> A Python exception is a value of \<open>error\<close>; a function that can raise returns
    \<open>error + 'a\<close> with \<open>Inl\<close> the exception.
  \<^item> A Python \<^verbatim>\<open>dict\<close> is an association list with distinct keys in insertion order
    (\<open>map_of\<close> reads it, \<open>AList.update\<close> writes it).
\<close>

datatype error =
    KeyError string
  | AttributeError
  | TypeError
  | ZeroDivisionError
  | ValueError
  | SyntaxError
  | NameError

section \<open>UnitRegistry\<close>

text \<open>\<^verbatim>\<open>UnitConfig\<close>: the registry reads the keys \<^verbatim>\<open>dim\<close>, \<^verbatim>\<open>degree\<close> and \<^verbatim>\<open>scale\<close>.\<close>

record unit_config =
  dim :: string
  degree :: int
  scale :: rat

type_synonym registry = "(string \<times> unit_config) list"

text \<open>The keys a \<^verbatim>\<open>UnitConfig\<close> dictionary can hold.\<close>

definition unit_config_keys :: "string list" where
  "unit_config_keys = [''dim'', ''degree'', ''scale'', ''terms'', ''followed_by'']"

definition startswith :: "string \<Rightarrow> string \<Rightarrow> bool" where
  "startswith p s = (take (length p) s = p)"

text \<open>
  The loop of \<^verbatim>\<open>UnitRegistry.__init__\<close> over the snapshot \<^verbatim>\<open>list(self.config.items())\<close>.
  The test \<^verbatim>\<open>"per_" + unit not in unit_config\<close> looks the reciprocal key up among the keys
  of the unit's own descriptor. \<^verbatim>\<open>1 / unit_config["scale"]\<close> raises on a zero scale.
\<close>

fun add_reciprocals :: "(string \<times> unit_config) list \<Rightarrow> registry \<Rightarrow> error + registry" where
  "add_reciprocals [] cfg = Inr cfg"
| "add_reciprocals ((unit, uc) # rest) cfg =
     (if \<not> startswith ''per_'' unit \<and> (''per_'' @ unit) \<notin> set unit_config_keys then
        (if scale uc = 0 then Inl ZeroDivisionError
         else add_reciprocals rest
                (AList.update (''per_'' @ unit)
                   \<lparr>dim = dim uc, degree = - degree uc, scale = 1 / scale uc\<rparr> cfg))
      else add_reciprocals rest cfg)"

definition UnitRegistry_init :: "(string \<times> unit_config) list \<Rightarrow> error + registry" where
  "UnitRegistry_init config = add_reciprocals config config"

text \<open>
  \<^verbatim>\<open>regex.split("(?<!per)_", unit)\<close>: the key is cut at every underscore whose three
  preceding characters are not \<^verbatim>\<open>per\<close>. \<open>prev\<close> holds the characters already read,
  latest first; \<open>cur\<close> the current piece, latest first.
\<close>

fun split_aux :: "string \<Rightarrow> string \<Rightarrow> string \<Rightarrow> string list" where
  "split_aux prev cur [] = [rev cur]"
| "split_aux prev cur (c # cs) =
     (if c = CHR ''_'' \<and> take 3 prev \<noteq> ''rep''
      then rev cur # split_aux (c # prev) [] cs
      else split_aux (c # prev) (c # cur) cs)"

definition split_unit :: "string \<Rightarrow> string list" where
  "split_unit unit = split_aux [] [] unit"

text \<open>\<^verbatim>\<open>degrees[unit_config["dim"]].append(unit_config["degree"])\<close> on the default dict.\<close>

definition append_degree :: "string \<Rightarrow> int \<Rightarrow> (string \<times> int list) list \<Rightarrow> (string \<times> int list) list" where
  "append_degree d g degrees =
     (case map_of degrees d of
        None \<Rightarrow> AList.update d [g] degrees
      | Some v \<Rightarrow> AList.update d (v @ [g]) degrees)"

text \<open>The body of the loop over the parts: a missing part raises \<^verbatim>\<open>KeyError\<close>.\<close>

fun collect_parts ::
  "registry \<Rightarrow> string list \<Rightarrow> (string \<times> int list) list \<Rightarrow> rat
     \<Rightarrow> error + ((string \<times> int list) list \<times> rat)" where
  "collect_parts cfg [] degrees sc = Inr (degrees, sc)"
| "collect_parts cfg (part # parts) degrees sc =
     (case map_of cfg part of
        None \<Rightarrow> Inl (KeyError part)
      | Some uc \<Rightarrow>
          collect_parts cfg parts (append_degree (dim uc) (degree uc) degrees) (sc * scale uc))"

text \<open>\<^verbatim>\<open>sum(v) if len(set(v)) > 1 else v[0]\<close>\<close>

definition combine_degrees :: "int list \<Rightarrow> int" where
  "combine_degrees v = (if length (remdups v) > 1 then sum_list v else hd v)"

type_synonym signature = "(string \<times> int) list"

text \<open>
  \<^verbatim>\<open>UnitRegistry.parse_unit\<close>. The returned \<^verbatim>\<open>str(dict(sorted(degrees.items())))\<close> is
  represented by the sorted item list it prints. The \<^verbatim>\<open>lru_cache\<close> is transparent.
\<close>

definition parse_unit :: "registry \<Rightarrow> string \<Rightarrow> error + (signature \<times> rat)" where
  "parse_unit cfg unit =
     (case collect_parts cfg (split_unit unit) [] 1 of
        Inl e \<Rightarrow> Inl e
      | Inr (degrees, sc) \<Rightarrow>
          Inr (sort_key fst
                 (map (\<lambda>(k, v). (k, combine_degrees v))
                    (filter (\<lambda>(k, v). sum_list v \<noteq> 0) degrees)),
               sc))"

section \<open>Quantity values\<close>

text \<open>
  The payload of a \<^verbatim>\<open>RangeQuantity\<close> is the tuple \<^verbatim>\<open>(from_value, to_value)\<close>;
  \<^verbatim>\<open>from_quantities\<close> stores whatever payloads it is handed, so a bound can itself be a tuple.
\<close>

datatype pyval = Num rat | Tup pyval pyval

datatype quantity =
    SimpleQuantity rat string
  | RangeQuantity pyval pyval string

fun unit_of :: "quantity \<Rightarrow> string" where
  "unit_of (SimpleQuantity v u) = u"
| "unit_of (RangeQuantity a b u) = u"

fun value_of :: "quantity \<Rightarrow> pyval" where
  "value_of (SimpleQuantity v u) = Num v"
| "value_of (RangeQuantity a b u) = Tup a b"

text \<open>\<^verbatim>\<open>x * ratio\<close> with a float \<^verbatim>\<open>ratio\<close>: a tuple cannot be multiplied by a float.\<close>

fun times_ratio :: "pyval \<Rightarrow> rat \<Rightarrow> error + pyval" where
  "times_ratio (Num x) r = Inr (Num (x * r))"
| "times_ratio (Tup a b) r = Inl TypeError"

text \<open>
  \<^verbatim>\<open>SimpleQuantity.convert_to\<close> and \<^verbatim>\<open>RangeQuantity.convert_to\<close>. The division
  \<^verbatim>\<open>self_scale / other_scale\<close> raises on a zero target scale.
\<close>

definition convert_to :: "registry \<Rightarrow> quantity \<Rightarrow> string \<Rightarrow> error + pyval" where
  "convert_to reg q other_unit =
     (case parse_unit reg (unit_of q) of
        Inl e \<Rightarrow> Inl e
      | Inr (self_degrees, self_scale) \<Rightarrow>
     (case parse_unit reg other_unit of
        Inl e \<Rightarrow> Inl e
      | Inr (other_degrees, other_scale) \<Rightarrow>
          if self_degrees \<noteq> other_degrees then Inl AttributeError
          else if other_scale = 0 then Inl ZeroDivisionError
          else
            (let ratio = self_scale / other_scale in
             case q of
               SimpleQuantity v u \<Rightarrow>
                 if ratio \<noteq> 1 then Inr (Num (v * ratio)) else Inr (Num v)
             | RangeQuantity a b u \<Rightarrow>
                 if ratio = 1 then Inr (Tup a b)
                 else (case times_ratio a ratio of
                         Inl e \<Rightarrow> Inl e
                       | Inr from_value \<Rightarrow>
                           (case times_ratio b ratio of
                              Inl e \<Rightarrow> Inl e
                            | Inr to_value \<Rightarrow> Inr (Tup from_value to_value))))))"

text \<open>The right-hand operand of \<^verbatim>\<open>==\<close> is any Python object.\<close>

datatype 'a pyobj = Quantity quantity | Other 'a

text \<open>
  \<^verbatim>\<open>SimpleQuantity.__eq__\<close> and \<^verbatim>\<open>RangeQuantity.__eq__\<close>, dispatched on the class of
  \<^verbatim>\<open>self\<close>: the \<^verbatim>\<open>isinstance\<close> test, then \<^verbatim>\<open>self.convert_to(other.unit) == other.value\<close>.
\<close>

fun quantity_eq :: "registry \<Rightarrow> quantity \<Rightarrow> 'a pyobj \<Rightarrow> error + bool" where
  "quantity_eq reg (SimpleQuantity v u) (Quantity (SimpleQuantity v' u')) =
     (case convert_to reg (SimpleQuantity v u) u' of
        Inl e \<Rightarrow> Inl e
      | Inr c \<Rightarrow> Inr (c = Num v'))"
| "quantity_eq reg (RangeQuantity a b u) (Quantity (RangeQuantity a' b' u')) =
     (case convert_to reg (RangeQuantity a b u) u' of
        Inl e \<Rightarrow> Inl e
      | Inr c \<Rightarrow> Inr (c = Tup a' b'))"
| "quantity_eq reg q other = Inr False"
section \<open>The signature rule in the words of the specification\<close>

text \<open>
  The specification describes the signature of a composite key by dimension: the degrees
  recorded for a dimension are those of the atoms of that dimension, in order; the single
  degree is kept when they are all equal, their sum otherwise; a dimension whose summed
  degree is zero is dropped. The result is listed by dimension name.
\<close>

definition recorded_degrees :: "unit_config list \<Rightarrow> string \<Rightarrow> int list" where
  "recorded_degrees ucs d = map degree (filter (\<lambda>uc. dim uc = d) ucs)"

definition spec_degree :: "int list \<Rightarrow> int" where
  "spec_degree v = (if list_all (\<lambda>x. x = hd v) v then hd v else sum_list v)"

definition spec_signature :: "unit_config list \<Rightarrow> signature" where
  "spec_signature ucs =
     sort_key fst
       (map (\<lambda>d. (d, spec_degree (recorded_degrees ucs d)))
          (filter (\<lambda>d. sum_list (recorded_degrees ucs d) \<noteq> 0) (remdups (map dim ucs))))"


text \<open>The parts of a key, joined by underscores again.\<close>

fun join_parts :: "string list \<Rightarrow> string" where
  "join_parts [] = []"
| "join_parts [p] = p"
| "join_parts (p # q # ps) = p @ ''_'' @ join_parts (q # ps)"

section \<open>A small registry for concrete evaluations\<close>

definition example_units :: "(string \<times> unit_config) list" where
  "example_units =
     [(''m'', \<lparr>dim = ''length'', degree = 1, scale = 100\<rparr>),
      (''cm'', \<lparr>dim = ''length'', degree = 1, scale = 1\<rparr>),
      (''kg'', \<lparr>dim = ''mass'', degree = 1, scale = 1000\<rparr>),
      (''per_z'', \<lparr>dim = ''length'', degree = 1, scale = 0\<rparr>)]"

text \<open>The registry that \<open>UnitRegistry_init\<close> builds from \<open>example_units\<close>.\<close>

definition example_registry :: registry where
  "example_registry =
     example_units @
     [(''per_m'', \<lparr>dim = ''length'', degree = - 1, scale = 1 / 100\<rparr>),
      (''per_cm'', \<lparr>dim = ''length'', degree = - 1, scale = 1\<rparr>),
      (''per_kg'', \<lparr>dim = ''mass'', degree = - 1, scale = 1 / 1000\<rparr>)]"


section \<open>Documents and quantity spans\<close>

text \<open>
  The host document is known by its interface only. \<open>norm_at d i\<close> is \<^verbatim>\<open>doc[i].norm_\<close>,
  \<open>text_between d a b\<close> is \<^verbatim>\<open>get_text(doc[a:b], "NORM", True)\<close> and \<open>blank_between d a b\<close> is
  \<^verbatim>\<open>doc[a:b].text.strip() == ""\<close>, for token offsets \<open>a\<close> and \<open>b\<close>.
\<close>

record doc =
  norm_at :: "int \<Rightarrow> string"
  text_between :: "int \<Rightarrow> int \<Rightarrow> string"
  blank_between :: "int \<Rightarrow> int \<Rightarrow> bool"

text \<open>
  A quantity span: the token offsets of a \<^verbatim>\<open>Span\<close>, its label, and the value stored in
  the extension attribute of that label, which \<^verbatim>\<open>span._.value\<close> reads.
\<close>

record ent =
  ent_start :: int
  ent_end :: int
  ent_label :: string
  ent_value :: quantity

section \<open>The matcher's configuration\<close>

text \<open>
  \<^verbatim>\<open>UnitlessRange\<close> and \<^verbatim>\<open>UnitlessPatternConfigWithName\<close>: the keys \<^verbatim>\<open>min\<close> and \<^verbatim>\<open>max\<close>
  may be absent.
\<close>

record unitless_range =
  range_min :: "int option"
  range_max :: "int option"
  range_unit :: string

record unitless_pattern =
  pattern_name :: string
  ranges :: "unitless_range list"

text \<open>The two values of \<^verbatim>\<open>merge_mode\<close>, \<^verbatim>\<open>"intersect"\<close> and \<^verbatim>\<open>"align"\<close>.\<close>

datatype merge_mode = Intersect | Align

text \<open>
  The attributes of \<^verbatim>\<open>QuantitiesMatcher\<close> that the Linker, the Merger and the Aligner read. Label hashes
  are identified with the labels they hash. \<^verbatim>\<open>before_snippet_limit\<close> and
  \<^verbatim>\<open>after_snippet_limit\<close> are the constructor's arguments of these names, stored on
  \<^verbatim>\<open>self\<close>.
\<close>

record matcher =
  unit_registry :: registry
  unitless_patterns :: "(string \<times> unitless_pattern) list"
  unit_followers :: "(string \<times> string) list"
  measure_names :: "(signature \<times> string) list"
  all_quantities :: bool
  extract_ranges :: bool
  range_patterns :: "(string option \<times> string option) list"
  before_snippet_limit :: int
  after_snippet_limit :: int
  number_label_hashes :: "string list"
  unitless_label_hashes :: "string list"
  merge_mode :: merge_mode

section \<open>Merger\<close>

text \<open>
  \<^verbatim>\<open>last._.value + ent._.value\<close>. Only \<^verbatim>\<open>SimpleQuantity\<close> defines \<^verbatim>\<open>__add__\<close>, and no class
  defines \<^verbatim>\<open>__radd__\<close>: a range on the left is a \<^verbatim>\<open>TypeError\<close>. A number plus a tuple is a
  \<^verbatim>\<open>TypeError\<close> as well.
\<close>

fun quantity_add :: "registry \<Rightarrow> quantity \<Rightarrow> quantity \<Rightarrow> error + quantity" where
  "quantity_add reg (RangeQuantity a b u) other = Inl TypeError"
| "quantity_add reg (SimpleQuantity v u) other =
     (if unit_of other = u then
        (case value_of other of
           Num x \<Rightarrow> Inr (SimpleQuantity (v + x) u)
         | Tup a b \<Rightarrow> Inl TypeError)
      else
        (case convert_to reg other u of
           Inl e \<Rightarrow> Inl e
         | Inr (Num x) \<Rightarrow> Inr (SimpleQuantity (v + x) u)
         | Inr (Tup a b) \<Rightarrow> Inl TypeError))"

text \<open>The handler \<^verbatim>\<open>except (AttributeError, TypeError)\<close> of both merge passes.\<close>

definition caught :: "error \<Rightarrow> bool" where
  "caught e = (e = AttributeError \<or> e = TypeError)"

text \<open>
  The loop of \<^verbatim>\<open>merge_adjacent_quantities\<close> over \<^verbatim>\<open>quantities[1:]\<close>, with the list
  \<^verbatim>\<open>merged\<close> as state. An exception that the handler does not name leaves the pass.
\<close>

fun adjacent_loop :: "registry \<Rightarrow> ent list \<Rightarrow> ent list \<Rightarrow> error + ent list" where
  "adjacent_loop reg merged [] = Inr merged"
| "adjacent_loop reg merged (ent # rest) =
     (let last = List.last merged in
      if ent_end last = ent_start ent \<and> unit_of (ent_value last) \<noteq> unit_of (ent_value ent) then
        (case quantity_add reg (ent_value last) (ent_value ent) of
           Inr new_value \<Rightarrow>
             adjacent_loop reg
               (butlast merged @
                  [\<lparr>ent_start = ent_start last, ent_end = ent_end ent,
                    ent_label = ent_label ent, ent_value = new_value\<rparr>])
               rest
         | Inl e \<Rightarrow>
             if caught e then adjacent_loop reg (merged @ [ent]) rest else Inl e)
      else adjacent_loop reg (merged @ [ent]) rest)"

definition merge_adjacent_quantities :: "registry \<Rightarrow> ent list \<Rightarrow> error + ent list" where
  "merge_adjacent_quantities reg quantities =
     adjacent_loop reg (take 1 quantities) (drop 1 quantities)"

text \<open>\<^verbatim>\<open>RangeQuantity.from_quantities(a, b)\<close>\<close>

definition from_quantities :: "registry \<Rightarrow> quantity \<Rightarrow> quantity \<Rightarrow> error + quantity" where
  "from_quantities reg a b =
     (case convert_to reg b (unit_of a) of
        Inl e \<Rightarrow> Inl e
      | Inr b_value \<Rightarrow> Inr (RangeQuantity (value_of a) b_value (unit_of a)))"

text \<open>
  The patterns \<^verbatim>\<open>(a, b)\<close> of \<^verbatim>\<open>self.range_patterns\<close> with \<^verbatim>\<open>b == to_text\<close> and
  \<^verbatim>\<open>a is None or a == from_text\<close>, in registration order.
\<close>

definition matching_patterns ::
  "(string option \<times> string option) list \<Rightarrow> string option \<Rightarrow> string
     \<Rightarrow> (string option \<times> string option) list" where
  "matching_patterns pats from_text to_text =
     filter (\<lambda>(a, b). b = Some to_text \<and> (a = None \<or> a = from_text)) pats"

text \<open>The loop of \<^verbatim>\<open>merge_quantities_in_ranges\<close>.\<close>

fun range_loop ::
  "registry \<Rightarrow> (string option \<times> string option) list \<Rightarrow> doc \<Rightarrow> ent list \<Rightarrow> ent list
     \<Rightarrow> error + ent list" where
  "range_loop reg pats d merged [] = Inr merged"
| "range_loop reg pats d merged (ent # rest) =
     (let last = List.last merged;
          from_text = (if ent_start last > 0 then Some (norm_at d (ent_start last - 1)) else None);
          to_text = text_between d (ent_end last) (ent_start ent);
          matching = matching_patterns pats from_text to_text
      in
      if length matching \<noteq> 0 then
        (case from_quantities reg (ent_value last) (ent_value ent) of
           Inr new_value \<Rightarrow>
             range_loop reg pats d
               (butlast merged @
                  [\<lparr>ent_start = (if fst (hd matching) = None then ent_start last
                                  else ent_start last - 1),
                    ent_end = ent_end ent,
                    ent_label = ent_label ent, ent_value = new_value\<rparr>])
               rest
         | Inl e \<Rightarrow>
             if caught e then range_loop reg pats d (merged @ [ent]) rest else Inl e)
      else range_loop reg pats d (merged @ [ent]) rest)"

text \<open>
  \<^verbatim>\<open>merge_quantities_in_ranges\<close>. The quantities carry the registry of the matcher.
\<close>

definition merge_quantities_in_ranges :: "matcher \<Rightarrow> doc \<Rightarrow> ent list \<Rightarrow> error + ent list" where
  "merge_quantities_in_ranges self d quantities =
     (if \<not> extract_ranges self \<or> range_patterns self = [] then Inr quantities
      else range_loop (unit_registry self) (range_patterns self) d
             (take 1 quantities) (drop 1 quantities))"

text \<open>
  A document given by the normalized texts of its tokens, single spaces between them:
  the text of a slice is the tokens joined by a space, and a slice is blank when its tokens
  hold white space only (a run of spaces or a line break is a token of its own).
\<close>

definition is_space :: "char \<Rightarrow> bool" where
  "is_space c = (c \<in> set [CHR '' '', CHR 0x09, CHR 0x0A, CHR 0x0D])"

fun join_tokens :: "string list \<Rightarrow> string" where
  "join_tokens [] = []"
| "join_tokens [t] = t"
| "join_tokens (t # ts) = t @ '' '' @ join_tokens ts"

definition slice :: "'a list \<Rightarrow> int \<Rightarrow> int \<Rightarrow> 'a list" where
  "slice xs a b = take (nat b - nat a) (drop (nat a) xs)"

definition doc_of_tokens :: "string list \<Rightarrow> doc" where
  "doc_of_tokens toks =
     \<lparr>norm_at = (\<lambda>i. if 0 \<le> i \<and> nat i < length toks then toks ! nat i else []),
      text_between = (\<lambda>a b. join_tokens (slice toks a b)),
      blank_between = (\<lambda>a b. list_all (list_all is_space) (slice toks a b))\<rparr>"


section \<open>The merge passes as streaming reductions\<close>

text \<open>
  Both passes have the same shape: the decision for the pair \<^verbatim>\<open>(merged[-1], ent)\<close> either
  replaces the last element of \<^verbatim>\<open>merged\<close>, or appends \<^verbatim>\<open>ent\<close>, or raises. The decisions
  are named here (\<open>lst\<close> stands for \<^verbatim>\<open>last\<close>), and the loops are shown below to be the reduction \<open>stream\<close> over them.
\<close>

definition adjacent_step :: "registry \<Rightarrow> ent \<Rightarrow> ent \<Rightarrow> error + ent option" where
  "adjacent_step reg lst ent =
     (if ent_end lst = ent_start ent \<and> unit_of (ent_value lst) \<noteq> unit_of (ent_value ent) then
        (case quantity_add reg (ent_value lst) (ent_value ent) of
           Inr new_value \<Rightarrow>
             Inr (Some \<lparr>ent_start = ent_start lst, ent_end = ent_end ent,
                        ent_label = ent_label ent, ent_value = new_value\<rparr>)
         | Inl e \<Rightarrow> if caught e then Inr None else Inl e)
      else Inr None)"

definition range_step ::
  "registry \<Rightarrow> (string option \<times> string option) list \<Rightarrow> doc \<Rightarrow> ent \<Rightarrow> ent
     \<Rightarrow> error + ent option" where
  "range_step reg pats d lst ent =
     (let from_text = (if ent_start lst > 0 then Some (norm_at d (ent_start lst - 1)) else None);
          to_text = text_between d (ent_end lst) (ent_start ent);
          matching = matching_patterns pats from_text to_text
      in
      if length matching \<noteq> 0 then
        (case from_quantities reg (ent_value lst) (ent_value ent) of
           Inr new_value \<Rightarrow>
             Inr (Some \<lparr>ent_start = (if fst (hd matching) = None then ent_start lst
                                      else ent_start lst - 1),
                        ent_end = ent_end ent,
                        ent_label = ent_label ent, ent_value = new_value\<rparr>)
         | Inl e \<Rightarrow> if caught e then Inr None else Inl e)
      else Inr None)"

fun stream :: "(ent \<Rightarrow> ent \<Rightarrow> error + ent option) \<Rightarrow> ent list \<Rightarrow> ent list \<Rightarrow> error + ent list" where
  "stream step merged [] = Inr merged"
| "stream step merged (ent # rest) =
     (case step (List.last merged) ent of
        Inl e \<Rightarrow> Inl e
      | Inr (Some new) \<Rightarrow> stream step (butlast merged @ [new]) rest
      | Inr None \<Rightarrow> stream step (merged @ [ent]) rest)"

text \<open>A list on which no neighbouring pair merges.\<close>

fun stable :: "(ent \<Rightarrow> ent \<Rightarrow> error + ent option) \<Rightarrow> ent list \<Rightarrow> bool" where
  "stable step [] = True"
| "stable step [x] = True"
| "stable step (x # y # zs) = (step x y = Inr None \<and> stable step (y # zs))"

text \<open>The from-markers of the range patterns.\<close>

definition from_markers :: "(string option \<times> string option) list \<Rightarrow> string list" where
  "from_markers pats = concat (map (\<lambda>(a, b). case a of None \<Rightarrow> [] | Some m \<Rightarrow> [m]) pats)"


text \<open>The predicate that selects the matching patterns, and concrete inputs.\<close>

definition pattern_matches ::
  "string option \<Rightarrow> string \<Rightarrow> (string option \<times> string option) \<Rightarrow> bool" where
  "pattern_matches from_text to_text = (\<lambda>(a, b). b = Some to_text \<and> (a = None \<or> a = from_text))"

definition example_doc :: doc where
  "example_doc = doc_of_tokens [''2'', ''cm'', ''a'', ''entre'', ''3'', ''et'', ''4'', ''cm'']"

definition example_patterns :: "(string option \<times> string option) list" where
  "example_patterns = [(Some ''entre'', Some ''et''), (None, Some ''a'')]"

definition example_matcher :: matcher where
  "example_matcher =
     \<lparr>unit_registry = example_registry,
      unitless_patterns =
        [(''unitless_0'',
          \<lparr>pattern_name = ''weight'',
           ranges = [\<lparr>range_min = Some 0, range_max = Some 9999, range_unit = ''kg''\<rparr>]\<rparr>)],
      unit_followers = [(''m'', ''cm'')],
      measure_names = [([(''length'', 1)], ''size''), ([(''mass'', 1)], ''weight'')],
      all_quantities = False,
      extract_ranges = True,
      range_patterns = example_patterns,
      before_snippet_limit = 10,
      after_snippet_limit = 6,
      number_label_hashes = [''number''],
      unitless_label_hashes = [''unitless_0''],
      merge_mode = Intersect\<rparr>"

definition qspan :: "int \<Rightarrow> int \<Rightarrow> quantity \<Rightarrow> ent" where
  "qspan s e v = \<lparr>ent_start = s, ent_end = e, ent_label = ''size'', ent_value = v\<rparr>"

definition kg_cm_doc :: doc where
  "kg_cm_doc = doc_of_tokens [''2'', ''kg'', ''a'', ''3'', ''cm'']"



text \<open>
  The two halves of \<^verbatim>\<open>convert_to\<close>: the ratio of the scales, which depends on the two units
  only, and its application to the payload.
\<close>

definition ratio_of :: "registry \<Rightarrow> string \<Rightarrow> string \<Rightarrow> error + rat" where
  "ratio_of reg self_unit other_unit =
     (case parse_unit reg self_unit of
        Inl e \<Rightarrow> Inl e
      | Inr (self_degrees, self_scale) \<Rightarrow>
     (case parse_unit reg other_unit of
        Inl e \<Rightarrow> Inl e
      | Inr (other_degrees, other_scale) \<Rightarrow>
          if self_degrees \<noteq> other_degrees then Inl AttributeError
          else if other_scale = 0 then Inl ZeroDivisionError
          else Inr (self_scale / other_scale)))"

fun scale_value :: "quantity \<Rightarrow> rat \<Rightarrow> error + pyval" where
  "scale_value (SimpleQuantity v u) ratio = Inr (Num (v * ratio))"
| "scale_value (RangeQuantity a b u) ratio =
     (if ratio = 1 then Inr (Tup a b)
      else (case times_ratio a ratio of
              Inl e \<Rightarrow> Inl e
            | Inr from_value \<Rightarrow>
                (case times_ratio b ratio of
                   Inl e \<Rightarrow> Inl e
                 | Inr to_value \<Rightarrow> Inr (Tup from_value to_value))))"


section \<open>Linker\<close>

text \<open>
  A candidate span as the matchers return it: token offsets, label and text. The list
  \<^verbatim>\<open>matches\<close> pairs each span with the flag of a sentence end, as \<^verbatim>\<open>get_matches\<close> returns it,
  sorted by position.
\<close>

record span =
  span_start :: int
  span_end :: int
  span_label :: string
  span_text :: string

text \<open>A detected table: its span and the rows of \<^verbatim>\<open>table._.to_pd_table(as_spans=True)\<close>.\<close>

record table =
  table_start :: int
  table_end :: int
  table_rows :: "span option list list"

definition AFTER_SNIPPET_LIMIT :: int where
  "AFTER_SNIPPET_LIMIT = 6"

definition BEFORE_SNIPPET_LIMIT :: int where
  "BEFORE_SNIPPET_LIMIT = 10"

text \<open>
  The generator \<^verbatim>\<open>get_matches_after(i)\<close>, as the list of the pairs it yields: it stops at the
  first candidate that is not a sentence end and starts beyond the limit.
\<close>

fun after_scan :: "int \<Rightarrow> (nat \<times> span \<times> bool) list \<Rightarrow> (nat \<times> span) list" where
  "after_scan anchor_end [] = []"
| "after_scan anchor_end ((j, ent, is_sent_end) # rest) =
     (if \<not> is_sent_end \<and> span_start ent > anchor_end + AFTER_SNIPPET_LIMIT then []
      else (j, ent) # after_scan anchor_end rest)"

definition get_matches_after :: "(span \<times> bool) list \<Rightarrow> nat \<Rightarrow> (nat \<times> span) list" where
  "get_matches_after ms i =
     (case drop i ms of
        [] \<Rightarrow> []
      | (anchor, _) # following \<Rightarrow> after_scan (span_end anchor) (enumerate (Suc i) following))"

text \<open>
  The generator \<^verbatim>\<open>get_matches_before(i)\<close> walks \<^verbatim>\<open>matches[i::-1]\<close>, the anchor first.
\<close>

fun before_scan :: "int \<Rightarrow> (nat \<times> span \<times> bool) list \<Rightarrow> (nat \<times> span) list" where
  "before_scan anchor_start [] = []"
| "before_scan anchor_start ((j, ent, is_sent_end) # rest) =
     (if \<not> is_sent_end \<and> span_end ent < anchor_start - BEFORE_SNIPPET_LIMIT then []
      else (j, ent) # before_scan anchor_start rest)"

definition get_matches_before :: "(span \<times> bool) list \<Rightarrow> nat \<Rightarrow> (nat \<times> span) list" where
  "get_matches_before ms i =
     (case drop i ms of
        [] \<Rightarrow> []
      | (anchor, _) # _ \<Rightarrow>
          before_scan (span_start anchor) (rev (enumerate 0 (take (Suc i) ms))))"

text \<open>
  The dictionary handed to \<^verbatim>\<open>make_pseudo_sentence\<close>; in the dictionary display a later
  key replaces an earlier one.
\<close>

definition pseudo_mapping :: "matcher \<Rightarrow> string list \<Rightarrow> string \<Rightarrow> char option" where
  "pseudo_mapping self unit_labels lbl =
     (if lbl \<in> set (number_label_hashes self) then Some (CHR ''n'')
      else if lbl \<in> set unit_labels then Some (CHR ''u'')
      else if lbl = ''number'' then Some (CHR ''n'')
      else if lbl = ''unitless_stopword'' then Some (CHR '':'')
      else if lbl = ''stopword'' then Some (CHR '','')
      else None)"

text \<open>The loop of \<^verbatim>\<open>make_pseudo_sentence\<close>; it returns the last end offset as well.\<close>

fun pseudo_loop ::
  "doc \<Rightarrow> (string \<Rightarrow> char option) \<Rightarrow> int \<Rightarrow> string \<Rightarrow> nat list \<Rightarrow> (span \<times> bool) list
     \<Rightarrow> string \<times> nat list \<times> int" where
  "pseudo_loop d mapping lst ps offs [] = (ps, offs, lst)"
| "pseudo_loop d mapping lst ps offs ((ent, is_sent_split) # rest) =
     (let ps1 = (if span_start ent \<noteq> lst \<and> \<not> blank_between d lst (span_start ent)
                 then ps @ ''w'' else ps);
          code = (case mapping (span_label ent) of
                    Some c \<Rightarrow> c
                  | None \<Rightarrow> if is_sent_split then CHR ''.'' else CHR ''w'')
      in pseudo_loop d mapping (span_end ent) (ps1 @ [code]) (offs @ [length ps1]) rest)"

definition make_pseudo_sentence ::
  "doc \<Rightarrow> int \<Rightarrow> int \<Rightarrow> (span \<times> bool) list \<Rightarrow> (string \<Rightarrow> char option) \<Rightarrow> string \<times> nat list" where
  "make_pseudo_sentence d snippet_start snippet_end ms mapping =
     (case pseudo_loop d mapping snippet_start [] [] ms of
        (ps, offs, lst) \<Rightarrow>
          (if snippet_end \<noteq> lst \<and> blank_between d lst snippet_end then ps @ ''w'' else ps,
           offs))"

text \<open>
  What the loop over the numbers reads and does not change: the matcher, the document, the
  tables, the labels of the composed units, the pseudo sentence with its offsets, and Python's
  \<^verbatim>\<open>eval\<close> on number texts, which is a parameter of the model.
\<close>

record link_env =
  env_matcher :: matcher
  env_doc :: doc
  env_eval :: "string \<Rightarrow> error + rat"
  table_matches :: "table list"
  unit_label_hashes :: "string list"
  pseudo :: string
  offsets :: "nat list"

text \<open>
  What the loop changes: the labels of the matches (\<^verbatim>\<open>ent = number\<close> aliases the match, and
  \<^verbatim>\<open>ent.label_ = ...\<close> then relabels it), the quantities and the two index sets.
\<close>

record link_state =
  matches :: "(span \<times> bool) list"
  quantities :: "ent list"
  matched_unit_indices :: "nat set"
  matched_number_indices :: "nat set"

text \<open>The locals \<^verbatim>\<open>unit_idx\<close>, \<^verbatim>\<open>unit_text\<close> and \<^verbatim>\<open>unit_norm\<close>.\<close>

type_synonym locals = "nat option \<times> span option \<times> string option"

text \<open>
  The value of a number: a literal loses its spaces, takes a dot for a comma and loses its
  leading zeros before \<^verbatim>\<open>eval\<close>; a number word is evaluated from its label.
\<close>

definition number_text :: "string \<Rightarrow> string" where
  "number_text t =
     dropWhile (\<lambda>c. c = CHR ''0'')
       (filter (\<lambda>c. c \<noteq> CHR '' '')
          (map (\<lambda>c. if c = CHR '','' then CHR ''.'' else c)
             (filter (\<lambda>c. c \<noteq> CHR '' '') t)))"

definition parse_value :: "link_env \<Rightarrow> span \<Rightarrow> error + rat" where
  "parse_value env number =
     (if span_label number = ''number'' then
        env_eval env (if number_text (span_text number) = [] then ''0''
                      else number_text (span_text number))
      else env_eval env (span_label number))"

definition is_unit :: "link_env \<Rightarrow> nat \<times> span \<Rightarrow> bool" where
  "is_unit env = (\<lambda>(j, ent). span_label ent \<in> set (unit_label_hashes env))"

text \<open>The closest unit after the number.\<close>

definition closest_unit_after :: "link_env \<Rightarrow> (span \<times> bool) list \<Rightarrow> nat \<Rightarrow> locals" where
  "closest_unit_after env ms i =
     (case List.find (is_unit env) (get_matches_after ms i) of
        None \<Rightarrow> (None, None, None)
      | Some (j, ent) \<Rightarrow> (Some j, Some ent, Some (span_label ent)))"

text \<open>\<^verbatim>\<open>re.fullmatch(r"(,n)*", s)\<close> and \<^verbatim>\<open>re.fullmatch(r"[,:n]*", s)\<close>\<close>

fun comma_number_run :: "string \<Rightarrow> bool" where
  "comma_number_run [] = True"
| "comma_number_run (a # b # rest) = (a = CHR '','' \<and> b = CHR ''n'' \<and> comma_number_run rest)"
| "comma_number_run [a] = False"

definition separators_and_numbers :: "string \<Rightarrow> bool" where
  "separators_and_numbers s = list_all (\<lambda>c. c = CHR '','' \<or> c = CHR '':'' \<or> c = CHR ''n'') s"

text \<open>
  The slice \<^verbatim>\<open>pseudo[offsets[a] + 1: offsets[b]]\<close>. The list \<^verbatim>\<open>offsets\<close> has one entry per
  match, so both indices are in range.
\<close>

definition pseudo_between :: "link_env \<Rightarrow> nat \<Rightarrow> nat \<Rightarrow> string" where
  "pseudo_between env a b =
     slice (pseudo env) (int (offsets env ! a) + 1) (int (offsets env ! b))"

text \<open>
  The unit is kept when only numbers and separators stand between the number and it. With
  no unit, \<^verbatim>\<open>offsets[None]\<close> raises the \<^verbatim>\<open>TypeError\<close> that the handler passes over.
\<close>

definition check_enumeration :: "link_env \<Rightarrow> nat \<Rightarrow> locals \<Rightarrow> locals" where
  "check_enumeration env i loc =
     (case loc of (unit_idx, unit_text, unit_norm) \<Rightarrow>
        (case unit_idx of
           None \<Rightarrow> loc
         | Some u \<Rightarrow>
             if comma_number_run (pseudo_between env i u) then loc
             else (unit_idx, unit_text, None)))"

text \<open>The rows of a table: first and last item, and \<^verbatim>\<open>is_within_row\<close>.\<close>

definition row_bounds :: "span option list \<Rightarrow> (int \<times> int) option" where
  "row_bounds row =
     (case List.map_filter (\<lambda>x. x) row of
        [] \<Rightarrow> None
      | item # items \<Rightarrow> Some (span_start item, span_end (last (item # items))))"

definition is_within_row :: "int \<times> int \<Rightarrow> span \<Rightarrow> bool" where
  "is_within_row b x = (span_start x \<ge> fst b \<and> span_end x \<le> snd b)"

text \<open>\<^verbatim>\<open>unit_text and is_within_row(unit_text)\<close>: an empty span is false.\<close>

definition unit_in_row :: "int \<times> int \<Rightarrow> span option \<Rightarrow> span option" where
  "unit_in_row b unit_text =
     (case unit_text of
        None \<Rightarrow> None
      | Some u \<Rightarrow> if span_start u < span_end u \<and> is_within_row b u then Some u else None)"

fun rows_loop ::
  "link_env \<Rightarrow> (span \<times> bool) list \<Rightarrow> nat \<Rightarrow> span \<Rightarrow> locals \<Rightarrow> span option list list \<Rightarrow> locals" where
  "rows_loop env ms i number loc [] = loc"
| "rows_loop env ms i number loc (row # rows) =
     (case row_bounds row of
        None \<Rightarrow> rows_loop env ms i number loc rows
      | Some b \<Rightarrow>
          if is_within_row b number then
            (case unit_in_row b (fst (snd loc)) of
               Some u \<Rightarrow> rows_loop env ms i number (fst loc, fst (snd loc), Some (span_label u)) rows
             | None \<Rightarrow>
                 (case List.find (is_unit env) (get_matches_before ms i) of
                    None \<Rightarrow> rows_loop env ms i number loc rows
                  | Some (b_unit_idx, b_unit_text) \<Rightarrow>
                      if is_within_row b b_unit_text then
                        rows_loop env ms i number
                          (Some b_unit_idx, Some b_unit_text, Some (span_label b_unit_text)) rows
                      else rows_loop env ms i number loc rows))
          else rows_loop env ms i number loc rows)"

fun tables_loop ::
  "link_env \<Rightarrow> (span \<times> bool) list \<Rightarrow> nat \<Rightarrow> span \<Rightarrow> locals \<Rightarrow> table list \<Rightarrow> locals" where
  "tables_loop env ms i number loc [] = loc"
| "tables_loop env ms i number loc (t # ts) =
     (if span_start number \<ge> table_start t \<and> span_end number \<le> table_end t then
        tables_loop env ms i number (rows_loop env ms i number loc (table_rows t)) ts
      else tables_loop env ms i number loc ts)"

text \<open>
  The unit that follows the preceding unit, as in \<^verbatim>\<open>1 meter 50\<close>. A missing follower is the
  \<^verbatim>\<open>KeyError\<close> that the handler passes over.
\<close>

definition follower_unit :: "link_env \<Rightarrow> link_state \<Rightarrow> nat \<Rightarrow> span \<Rightarrow> string option" where
  "follower_unit env st i number =
     (if 0 < i \<and> (i - 1) \<in> matched_unit_indices st then
        (case drop (i - 1) (matches st) of
           [] \<Rightarrow> None
         | (unit_before, _) # _ \<Rightarrow>
             if span_end unit_before = span_start number then
               map_of (unit_followers (env_matcher env)) (span_label unit_before)
             else None)
      else None)"

text \<open>The first three strategies: the unit after, the unit of the table row, the follower.\<close>

definition earlier_strategies :: "link_env \<Rightarrow> link_state \<Rightarrow> nat \<Rightarrow> span \<Rightarrow> locals" where
  "earlier_strategies env st i number =
     (let loc1 = check_enumeration env i (closest_unit_after env (matches st) i);
          loc2 = (if snd (snd loc1) = None
                  then tables_loop env (matches st) i number loc1 (table_matches env)
                  else loc1)
      in if snd (snd loc2) = None
         then (fst loc2, fst (snd loc2), follower_unit env st i number)
         else loc2)"

text \<open>
  The unitless patterns. \<^verbatim>\<open>value >= scope["min"]\<close> and \<^verbatim>\<open>value < scope["max"]\<close>, each only
  when the key is there.
\<close>

definition in_scope :: "rat \<Rightarrow> unitless_range \<Rightarrow> bool" where
  "in_scope v scope =
     ((case range_min scope of None \<Rightarrow> True | Some m \<Rightarrow> v \<ge> of_int m) \<and>
      (case range_max scope of None \<Rightarrow> True | Some m \<Rightarrow> v < of_int m))"

definition is_trigger :: "link_env \<Rightarrow> nat \<times> span \<Rightarrow> bool" where
  "is_trigger env = (\<lambda>(j, e). span_label e \<in> set (unitless_label_hashes (env_matcher env)))"

definition unitless_dispatch :: "link_env \<Rightarrow> link_state \<Rightarrow> nat \<Rightarrow> rat \<Rightarrow> error + string option" where
  "unitless_dispatch env st i v =
     (case List.find (is_trigger env) (get_matches_before (matches st) i) of
        None \<Rightarrow> Inr None
      | Some (unitless_idx, unitless_text) \<Rightarrow>
          if separators_and_numbers (pseudo_between env unitless_idx i) then
            (case map_of (unitless_patterns (env_matcher env)) (span_label unitless_text) of
               None \<Rightarrow> Inl (KeyError (span_label unitless_text))
             | Some unitless_pattern \<Rightarrow>
                 Inr (map_option range_unit (List.find (in_scope v) (ranges unitless_pattern))))
          else Inr None)"

definition resolve_unit :: "link_env \<Rightarrow> link_state \<Rightarrow> nat \<Rightarrow> span \<Rightarrow> rat \<Rightarrow> error + locals" where
  "resolve_unit env st i number v =
     (case earlier_strategies env st i number of (unit_idx, unit_text, unit_norm) \<Rightarrow>
        if unit_norm = None then
          (case unitless_dispatch env st i v of
             Inl e \<Rightarrow> Inl e
           | Inr u \<Rightarrow> Inr (unit_idx, unit_text, u))
        else Inr (unit_idx, unit_text, unit_norm))"

text \<open>
  The span of the quantity: the number with the unit when only blanks separate them, the
  number alone otherwise. The flag tells that the span is the match of the number itself.
\<close>

definition quantity_span :: "doc \<Rightarrow> span \<Rightarrow> span option \<Rightarrow> int \<times> int \<times> bool" where
  "quantity_span d number unit_text =
     (case unit_text of
        None \<Rightarrow> (span_start number, span_end number, True)
      | Some u \<Rightarrow>
          if span_start u < span_end u \<and> span_start number \<le> span_end u
             \<and> blank_between d (span_end number) (span_start u)
          then (span_start number, span_end u, False)
          else if span_start u < span_end u \<and> span_start u \<le> span_end number
             \<and> blank_between d (span_end u) (span_start number)
          then (span_start u, span_end number, False)
          else (span_start number, span_end number, True))"

definition relabel :: "(span \<times> bool) list \<Rightarrow> nat \<Rightarrow> string \<Rightarrow> (span \<times> bool) list" where
  "relabel ms i lbl =
     (if i < length ms then ms[i := (fst (ms ! i)\<lparr>span_label := lbl\<rparr>, snd (ms ! i))] else ms)"

text \<open>The end of the loop body, once a unit is known: the quantity is stored.\<close>

definition store_quantity ::
  "link_env \<Rightarrow> link_state \<Rightarrow> nat \<Rightarrow> span \<Rightarrow> rat \<Rightarrow> nat option \<Rightarrow> span option \<Rightarrow> string
     \<Rightarrow> string \<Rightarrow> link_state" where
  "store_quantity env st i number v unit_idx unit_text unit_norm lbl =
     (case quantity_span (env_doc env) number unit_text of (s, e, is_number) \<Rightarrow>
        st\<lparr>matches := (if is_number then relabel (matches st) i lbl else matches st),
           quantities := quantities st @
             [\<lparr>ent_start = s, ent_end = e, ent_label = lbl,
               ent_value = SimpleQuantity v unit_norm\<rparr>],
           matched_unit_indices :=
             (case unit_idx of None \<Rightarrow> matched_unit_indices st
              | Some j \<Rightarrow> insert j (matched_unit_indices st)),
           matched_number_indices := insert i (matched_number_indices st)\<rparr>)"

text \<open>
  The body of the loop \<^verbatim>\<open>for number_idx, (number, is_sent_split) in enumerate(matches)\<close>.
  Every \<^verbatim>\<open>continue\<close> returns the state as it is. \<^verbatim>\<open>ValueError\<close> and \<^verbatim>\<open>SyntaxError\<close> of the
  evaluation and the \<^verbatim>\<open>KeyError\<close> of \<^verbatim>\<open>parse_unit\<close> are caught; other exceptions escape.
\<close>

definition link_number :: "link_env \<Rightarrow> link_state \<Rightarrow> nat \<Rightarrow> error + link_state" where
  "link_number env st i =
     (case drop i (matches st) of
        [] \<Rightarrow> Inr st
      | (number, is_sent_split) # _ \<Rightarrow>
          if \<not> is_sent_split \<and> span_label number \<notin> set (number_label_hashes (env_matcher env))
          then Inr st
          else
            (case parse_value env number of
               Inl e \<Rightarrow> if e = ValueError \<or> e = SyntaxError then Inr st else Inl e
             | Inr v \<Rightarrow>
                 (case resolve_unit env st i number v of
                    Inl e \<Rightarrow> Inl e
                  | Inr (unit_idx, unit_text, unit_norm) \<Rightarrow>
                      (case unit_norm of
                         None \<Rightarrow> Inr st
                       | Some u \<Rightarrow>
                           if u = [] then Inr st
                           else
                             (case parse_unit (unit_registry (env_matcher env)) u of
                                Inl (KeyError k) \<Rightarrow> Inr st
                              | Inl e \<Rightarrow> Inl e
                              | Inr (dims, sc) \<Rightarrow>
                                  (case map_of (measure_names (env_matcher env)) dims of
                                     None \<Rightarrow>
                                       if all_quantities (env_matcher env)
                                       then Inr (store_quantity env st i number v
                                                   unit_idx unit_text u u)
                                       else Inr st
                                   | Some name \<Rightarrow>
                                       Inr (store_quantity env st i number v unit_idx unit_text u
                                              (if all_quantities (env_matcher env) then u
                                               else name))))))))"

fun link_loop :: "link_env \<Rightarrow> link_state \<Rightarrow> nat list \<Rightarrow> error + link_state" where
  "link_loop env st [] = Inr st"
| "link_loop env st (i # rest) =
     (case link_number env st i of
        Inl e \<Rightarrow> Inl e
      | Inr st' \<Rightarrow> link_loop env st' rest)"

text \<open>The list \<^verbatim>\<open>unmatched\<close>, computed from the matches after the loop.\<close>

definition unmatched :: "link_env \<Rightarrow> link_state \<Rightarrow> span list" where
  "unmatched env st =
     map (\<lambda>(idx, m, _). m)
       (filter (\<lambda>(idx, m, _).
            span_label m \<in> set (unit_label_hashes env) \<and> idx \<notin> matched_unit_indices st
          \<or> span_label m \<in> set (number_label_hashes (env_matcher env))
              \<and> idx \<notin> matched_number_indices st)
          (enumerate 0 (matches st)))"

text \<open>
  \<^verbatim>\<open>extract_quantities\<close>, from the result of \<^verbatim>\<open>get_matches\<close> on: the matches \<open>ms\<close> and the
  labels \<open>unit_labels\<close> of the composed units. \<open>tables\<close> is \<^verbatim>\<open>doc.spans["tables"]\<close>, or empty when
  tables are not used; \<open>snippet_start\<close> and \<open>snippet_end\<close> bound the document or the span.
\<close>

definition link_env_of ::
  "matcher \<Rightarrow> doc \<Rightarrow> (string \<Rightarrow> error + rat) \<Rightarrow> table list \<Rightarrow> (span \<times> bool) list \<Rightarrow> string list
     \<Rightarrow> int \<Rightarrow> int \<Rightarrow> link_env" where
  "link_env_of self d ev tables ms unit_labels snippet_start snippet_end =
     (case make_pseudo_sentence d snippet_start snippet_end ms (pseudo_mapping self unit_labels) of
        (ps, offs) \<Rightarrow>
          \<lparr>env_matcher = self, env_doc = d, env_eval = ev, table_matches = tables,
           unit_label_hashes = unit_labels, pseudo = ps, offsets = offs\<rparr>)"

definition initial_state :: "(span \<times> bool) list \<Rightarrow> link_state" where
  "initial_state ms =
     \<lparr>matches = ms, quantities = [], matched_unit_indices = {}, matched_number_indices = {}\<rparr>"

definition extract_quantities ::
  "matcher \<Rightarrow> doc \<Rightarrow> (string \<Rightarrow> error + rat) \<Rightarrow> table list \<Rightarrow> (span \<times> bool) list \<Rightarrow> string list
     \<Rightarrow> int \<Rightarrow> int \<Rightarrow> error + (ent list \<times> span list)" where
  "extract_quantities self d ev tables ms unit_labels snippet_start snippet_end =
     (let env = link_env_of self d ev tables ms unit_labels snippet_start snippet_end in
      case link_loop env (initial_state ms) [0..<length ms] of
        Inl e \<Rightarrow> Inl e
      | Inr st \<Rightarrow> Inr (quantities st, unmatched env st))"



text \<open>The code that \<^verbatim>\<open>make_pseudo_sentence\<close> writes for a match.\<close>

definition code_of :: "(string \<Rightarrow> char option) \<Rightarrow> span \<times> bool \<Rightarrow> char" where
  "code_of mapping m =
     (case mapping (span_label (fst m)) of
        Some c \<Rightarrow> c
      | None \<Rightarrow> if snd m then CHR ''.'' else CHR ''w'')"



section \<open>Aligner and the spans of interest\<close>












section \<open>Concrete documents for the Linker\<close>

text \<open>
  An evaluator for the example texts: a string of decimal digits evaluates to its number,
  anything else is a \<^verbatim>\<open>SyntaxError\<close>, as for Python's \<^verbatim>\<open>eval\<close> on such strings.
\<close>

definition example_eval :: "string \<Rightarrow> error + rat" where
  "example_eval s =
     (if s \<noteq> [] \<and> list_all (\<lambda>c. c \<in> set ''0123456789'') s
      then Inr (of_nat (foldl (\<lambda>a c. 10 * a + (of_char c - 48)) 0 s))
      else Inl SyntaxError)"

definition mspan :: "int \<Rightarrow> int \<Rightarrow> string \<Rightarrow> string \<Rightarrow> span \<times> bool" where
  "mspan s e lbl txt = (\<lparr>span_start = s, span_end = e, span_label = lbl, span_text = txt\<rparr>, False)"

text \<open>\<^verbatim>\<open>1 , 2 , 3 cm\<close>: three numbers, two stopwords and a unit.\<close>

definition enum_doc :: doc where
  "enum_doc = doc_of_tokens [''1'', '','', ''2'', '','', ''3'', ''cm'']"

definition enum_matches :: "(span \<times> bool) list" where
  "enum_matches =
     [mspan 0 1 ''number'' ''1'', mspan 1 2 ''stopword'' '','',
      mspan 2 3 ''number'' ''2'', mspan 3 4 ''stopword'' '','',
      mspan 4 5 ''number'' ''3'', mspan 5 6 ''cm'' ''cm'']"

text \<open>\<^verbatim>\<open>Poids : 65\<close>: a unitless trigger, the colon and a number.\<close>

definition poids_doc :: doc where
  "poids_doc = doc_of_tokens [''poids'', '':'', ''65'']"

definition poids_matches :: "(span \<times> bool) list" where
  "poids_matches =
     [mspan 0 1 ''unitless_0'' ''poids'', mspan 1 2 ''unitless_stopword'' '':'',
      mspan 2 3 ''number'' ''65'']"

text \<open>The example matcher with a trigger whose range names the unregistered unit \<^verbatim>\<open>xyz\<close>.\<close>

definition xyz_matcher :: matcher where
  "xyz_matcher =
     example_matcher\<lparr>unitless_patterns :=
        [(''unitless_0'',
          \<lparr>pattern_name = ''weight'',
           ranges = [\<lparr>range_min = Some 0, range_max = None, range_unit = ''xyz''\<rparr>]\<rparr>)]\<rparr>"

text \<open>\<^verbatim>\<open>poids : : : 65\<close>: the trigger lies three tokens before the number.\<close>

definition far_doc :: doc where
  "far_doc = doc_of_tokens [''poids'', '':'', '':'', '':'', ''65'']"

definition far_matches :: "(span \<times> bool) list" where
  "far_matches =
     [mspan 0 1 ''unitless_0'' ''poids'', mspan 1 2 ''unitless_stopword'' '':'',
      mspan 2 3 ''unitless_stopword'' '':'', mspan 3 4 ''unitless_stopword'' '':'',
      mspan 4 5 ''number'' ''65'']"

text \<open>
  \<^verbatim>\<open>1 cm a 2 cm a 3 cm\<close>, and the matcher with the single pattern \<^verbatim>\<open>(None, "a")\<close>.
\<close>

definition chain_doc :: doc where
  "chain_doc = doc_of_tokens [''1'', ''cm'', ''a'', ''2'', ''cm'', ''a'', ''3'', ''cm'']"

definition a_matcher :: matcher where
  "a_matcher = example_matcher\<lparr>range_patterns := [(None, Some ''a'')]\<rparr>"














section \<open>Evaluations on the example registry\<close>

lemma example_registry_init: "UnitRegistry_init example_units = Inr example_registry"
  by (simp add: UnitRegistry_init_def example_units_def example_registry_def startswith_def
      unit_config_keys_def)

lemma parse_m: "parse_unit example_registry ''m'' = Inr ([(''length'', 1)], 100)"
  by code_simp
lemma parse_cm: "parse_unit example_registry ''cm'' = Inr ([(''length'', 1)], 1)"
  by code_simp
lemma parse_kg: "parse_unit example_registry ''kg'' = Inr ([(''mass'', 1)], 1000)"
  by code_simp
lemma parse_per_z: "parse_unit example_registry ''per_z'' = Inr ([(''length'', 1)], 0)"
  by code_simp
lemma parse_kg_per_m: "parse_unit example_registry ''kg_per_m'' = Inr ([(''length'', -1), (''mass'', 1)], 10)"
  by code_simp

section \<open>Properties of the unit registry\<close>

lemma split_aux_nonempty: "split_aux p c s \<noteq> []"
  by (induction s arbitrary: p c) auto

lemma split_aux_single:
  "split_aux p c s = [x] \<Longrightarrow> (\<And>k. take 3 (k @ p) = ''rep'' \<Longrightarrow> take 3 (k @ p') = ''rep'')
     \<Longrightarrow> split_aux p' c' s = [rev c' @ s]"
proof (induction s arbitrary: p c p' c')
  case Nil
  then show ?case by simp
next
  case (Cons a s)
  have nosplit: "\<not> (a = CHR ''_'' \<and> take 3 p \<noteq> ''rep'')"
    using Cons.prems(1) split_aux_nonempty[of "a # p" "[]" s] by (auto split: if_splits)
  have nosplit': "\<not> (a = CHR ''_'' \<and> take 3 p' \<noteq> ''rep'')"
    using nosplit Cons.prems(2)[of "[]"] by auto
  have rel: "\<And>k. take 3 (k @ a # p) = ''rep'' \<Longrightarrow> take 3 (k @ a # p') = ''rep''"
    using Cons.prems(2)[of "k @ [a]" for k] by simp
  from nosplit Cons.prems(1) have "split_aux (a # p) (a # c) s = [x]" by (auto split: if_splits)
  from Cons.IH[OF this rel, of "a # c'"] nosplit' show ?case by auto
qed

lemma split_unit_per:
  assumes "split_unit U = [U]"
  shows "split_unit (''per_'' @ U) = [''per_'' @ U]"
proof -
  have a: "split_aux [] [] U = [U]" using assms by (simp add: split_unit_def)
  have rel: "\<And>k. take 3 (k @ []) = ''rep'' \<Longrightarrow> take 3 (k @ ''_rep'') = ''rep''"
  proof -
    fix k :: string assume h: "take 3 (k @ []) = ''rep''"
    then have "length (take 3 k) = 3" by simp
    then have "3 \<le> length k" by simp
    then show "take 3 (k @ ''_rep'') = ''rep''" using h by simp
  qed
  have "split_aux ''_rep'' ''_rep'' U = [rev ''_rep'' @ U]"
    by (rule split_aux_single[OF a rel])
  then show ?thesis by (simp add: split_unit_def)
qed

lemma add_reciprocals_untouched:
  "add_reciprocals xs cfg = Inr reg \<Longrightarrow> \<forall>k' \<in> fst ` set xs. ''per_'' @ k' \<noteq> key
     \<Longrightarrow> map_of reg key = map_of cfg key"
proof (induction xs arbitrary: cfg)
  case Nil
  then show ?case by simp
next
  case (Cons a xs)
  obtain k v where a: "a = (k, v)" by (cases a)
  show ?case using Cons.prems Cons.IH unfolding a
    by (auto split: if_splits simp: update_conv')
qed

lemma add_reciprocals_Cons:
  "add_reciprocals ((unit, uc) # rest) cfg =
     (if \<not> startswith ''per_'' unit then
        (if scale uc = 0 then Inl ZeroDivisionError
         else add_reciprocals rest
                (AList.update (''per_'' @ unit)
                   \<lparr>dim = dim uc, degree = - degree uc, scale = 1 / scale uc\<rparr> cfg))
      else add_reciprocals rest cfg)"
  by (simp add: unit_config_keys_def)

lemma add_reciprocals_reciprocal:
  "add_reciprocals xs cfg = Inr reg \<Longrightarrow> distinct (map fst xs) \<Longrightarrow> (U, uc) \<in> set xs
     \<Longrightarrow> \<not> startswith ''per_'' U
     \<Longrightarrow> scale uc \<noteq> 0 \<and>
         map_of reg (''per_'' @ U) = Some \<lparr>dim = dim uc, degree = - degree uc, scale = 1 / scale uc\<rparr>"
proof (induction xs arbitrary: cfg)
  case Nil
  then show ?case by simp
next
  case (Cons a xs)
  obtain k v where a: "a = (k, v)" by (cases a)
  show ?case
  proof (cases "(U, uc) = (k, v)")
    case True
    then have kv: "k = U" "v = uc" by auto
    have sc: "scale uc \<noteq> 0"
      using Cons.prems(1,4) unfolding a kv add_reciprocals_Cons by (auto split: if_splits)
    have rest: "add_reciprocals xs (AList.update (''per_'' @ U)
                   \<lparr>dim = dim uc, degree = - degree uc, scale = 1 / scale uc\<rparr> cfg) = Inr reg"
      using Cons.prems(1,4) sc unfolding a kv add_reciprocals_Cons by auto
    have "\<forall>k' \<in> fst ` set xs. ''per_'' @ k' \<noteq> ''per_'' @ U"
      using Cons.prems(2) unfolding a kv by auto
    from add_reciprocals_untouched[OF rest this] sc show ?thesis
      by (simp add: update_conv')
  next
    case False
    then have mem: "(U, uc) \<in> set xs" using Cons.prems(3) a by auto
    have d: "distinct (map fst xs)" using Cons.prems(2) by simp
    show ?thesis using Cons.prems(1) Cons.IH[OF _ d mem Cons.prems(4)] unfolding a
      by (auto split: if_splits)
  qed
qed

lemma startswith_per: "startswith ''per_'' (''per_'' @ k)"
  by (simp add: startswith_def)

lemma add_reciprocals_keeps:
  assumes "add_reciprocals xs cfg = Inr reg" "\<not> startswith ''per_'' key"
  shows "map_of reg key = map_of cfg key"
proof -
  have "\<forall>k' \<in> fst ` set xs. ''per_'' @ k' \<noteq> key"
    using assms(2) startswith_per by auto
  from add_reciprocals_untouched[OF assms(1) this] show ?thesis .
qed

lemma parse_unit_atom:
  assumes "split_unit U = [U]" "map_of reg U = Some uc"
  shows "parse_unit reg U =
           Inr (if degree uc = 0 then [] else [(dim uc, degree uc)], scale uc)"
  using assms by (simp add: parse_unit_def append_degree_def combine_degrees_def)


lemma split_aux_no_underscore:
  "CHR ''_'' \<notin> set s \<Longrightarrow> split_aux p c s = [rev c @ s]"
  by (induction s arbitrary: p c) auto

lemma no_underscore_is_atom: "CHR ''_'' \<notin> set U \<Longrightarrow> split_unit U = [U]"
  by (simp add: split_unit_def split_aux_no_underscore)

lemma join_parts_Cons: "ys \<noteq> [] \<Longrightarrow> join_parts (x # ys) = x @ ''_'' @ join_parts ys"
  by (cases ys) auto

lemma join_split_aux: "join_parts (split_aux p c s) = rev c @ s"
  by (induction s arbitrary: p c) (auto simp: join_parts_Cons split_aux_nonempty)

lemma join_split_unit: "join_parts (split_unit u) = u"
  by (simp add: split_unit_def join_split_aux)
subsection \<open>The signature computed by \<open>parse_unit\<close>\<close>

lemma collect_parts_fold:
  "map (map_of cfg) parts = map Some ucs \<Longrightarrow>
   collect_parts cfg parts degrees sc =
     Inr (fold (\<lambda>uc. append_degree (dim uc) (degree uc)) ucs degrees, sc * prod_list (map scale ucs))"
proof (induction parts arbitrary: ucs degrees sc)
  case Nil
  then show ?case by simp
next
  case (Cons p parts)
  then obtain uc rest where u: "ucs = uc # rest" "map_of cfg p = Some uc"
    "map (map_of cfg) parts = map Some rest" by (cases ucs) auto
  show ?case using Cons.IH[OF u(3)] u(1,2) by (simp add: mult.assoc)
qed

lemma append_degree_distinct:
  "distinct (map fst degrees) \<Longrightarrow> distinct (map fst (append_degree d g degrees))"
  by (simp add: append_degree_def distinct_update split: option.splits)

lemma append_degree_lookup:
  "map_of (append_degree d g degrees) k =
     (if k = d then Some (case map_of degrees d of None \<Rightarrow> [g] | Some v \<Rightarrow> v @ [g])
      else map_of degrees k)"
  by (simp add: append_degree_def update_conv' split: option.splits)

lemma fold_append_degree_distinct:
  "distinct (map fst degrees) \<Longrightarrow>
   distinct (map fst (fold (\<lambda>uc. append_degree (dim uc) (degree uc)) ucs degrees))"
  by (induction ucs arbitrary: degrees) (simp_all add: append_degree_distinct)

lemma fold_append_degree_lookup:
  "map_of (fold (\<lambda>uc. append_degree (dim uc) (degree uc)) ucs degrees) k =
     (case map_of degrees k of
        None \<Rightarrow> if recorded_degrees ucs k = [] then None else Some (recorded_degrees ucs k)
      | Some v \<Rightarrow> Some (v @ recorded_degrees ucs k))"
proof (induction ucs arbitrary: degrees)
  case Nil
  then show ?case by (simp add: recorded_degrees_def split: option.splits)
next
  case (Cons uc ucs)
  show ?case
    by (simp add: Cons.IH append_degree_lookup recorded_degrees_def split: option.splits)
qed

lemma combine_is_spec_degree: "combine_degrees v = spec_degree v"
proof (cases v)
  case Nil
  then show ?thesis by (simp add: combine_degrees_def spec_degree_def)
next
  case (Cons x xs)
  have "length (remdups v) = card (set v)" by (simp add: length_remdups_card_conv)
  moreover have "card (set v) \<le> 1 \<longleftrightarrow> set v \<subseteq> {x}"
  proof
    assume "card (set v) \<le> 1"
    moreover have "x \<in> set v" using Cons by simp
    ultimately show "set v \<subseteq> {x}"
      by (metis List.finite_set card_le_Suc0_iff_eq One_nat_def singletonI subsetI)
  next
    assume "set v \<subseteq> {x}"
    then have "card (set v) \<le> card {x}" by (intro card_mono) auto
    then show "card (set v) \<le> 1" by simp
  qed
  ultimately have "length (remdups v) > 1 \<longleftrightarrow> \<not> list_all (\<lambda>y. y = hd v) v"
    using Cons by (auto simp: list_all_iff)
  then show ?thesis by (simp add: combine_degrees_def spec_degree_def)
qed

lemma filter_fst_single:
  "distinct (map fst xs) \<Longrightarrow> k \<in> set xs \<Longrightarrow> filter (\<lambda>x. fst x = fst k) xs = [k]"
proof (induction xs)
  case Nil
  then show ?case by simp
next
  case (Cons a xs)
  show ?case
  proof (cases "a = k")
    case True
    then have "fst k \<notin> fst ` set xs" using Cons.prems(1) by simp
    then have "\<forall>x \<in> set xs. fst x \<noteq> fst k" by (metis imageI)
    then have "filter (\<lambda>x. fst x = fst k) xs = []" by (induction xs) auto
    then show ?thesis using True by simp
  next
    case False
    then have "k \<in> set xs" using Cons.prems(2) by simp
    moreover then have "fst a \<noteq> fst k" using Cons.prems(1) by (auto simp: image_iff)
    ultimately show ?thesis using Cons by simp
  qed
qed

lemma sort_key_fst_unique:
  fixes xs ys :: "('a::linorder \<times> 'b) list"
  assumes dx: "distinct (map fst xs)" and dy: "distinct (map fst ys)" and s: "set xs = set ys"
  shows "sort_key fst xs = sort_key fst ys"
proof (rule properties_for_sort_key)
  have "distinct xs" "distinct ys" using dx dy by (simp_all add: distinct_map)
  then have "mset xs = mset ys" using s by (simp add: set_eq_iff_mset_eq_distinct)
  then show "mset (sort_key fst ys) = mset xs" by simp
next
  fix k assume "k \<in> set (sort_key fst ys)"
  then have ky: "k \<in> set ys" by simp
  then have kx: "k \<in> set xs" using s by simp
  have "filter (\<lambda>x. fst x = fst k) (sort_key fst ys) = filter (\<lambda>x. fst x = fst k) ys"
    by (rule sort_key_stable)
  also have "\<dots> = [k]" by (rule filter_fst_single[OF dy ky])
  also have "\<dots> = filter (\<lambda>x. fst x = fst k) xs" by (rule filter_fst_single[OF dx kx, symmetric])
  finally show "filter (\<lambda>x. fst k = fst x) (sort_key fst ys) = filter (\<lambda>x. fst k = fst x) xs"
    by (simp add: eq_commute)
next
  show "sorted (map fst (sort_key fst ys))" by simp
qed

lemma signature_refines:
  fixes ucs :: "unit_config list"
  defines "D \<equiv> fold (\<lambda>uc. append_degree (dim uc) (degree uc)) ucs []"
  shows "sort_key fst (map (\<lambda>(k, v). (k, combine_degrees v)) (filter (\<lambda>(k, v). sum_list v \<noteq> 0) D))
         = spec_signature ucs"
proof -
  have dD: "distinct (map fst D)" unfolding D_def by (rule fold_append_degree_distinct) simp
  have lk: "\<And>k. map_of D k = (if recorded_degrees ucs k = [] then None else Some (recorded_degrees ucs k))"
    unfolding D_def by (simp add: fold_append_degree_lookup)
  have memD: "(k, v) \<in> set D \<longleftrightarrow> (v = recorded_degrees ucs k \<and> v \<noteq> [])" for k v
  proof -
    have "(k, v) \<in> set D \<longleftrightarrow> map_of D k = Some v" using map_of_eq_Some_iff[OF dD] by simp
    then show ?thesis unfolding lk by auto
  qed
  have rec_ne: "\<And>k. recorded_degrees ucs k \<noteq> [] \<longleftrightarrow> k \<in> set (map dim ucs)"
    by (auto simp: recorded_degrees_def filter_empty_conv)
  let ?L1 = "map (\<lambda>(k, v). (k, combine_degrees v)) (filter (\<lambda>(k, v). sum_list v \<noteq> 0) D)"
  let ?L2 = "map (\<lambda>d. (d, spec_degree (recorded_degrees ucs d)))
          (filter (\<lambda>d. sum_list (recorded_degrees ucs d) \<noteq> 0) (remdups (map dim ucs)))"
  have f1: "map fst ?L1 = map fst (filter (\<lambda>(k, v). sum_list v \<noteq> 0) D)"
    by (simp add: case_prod_unfold comp_def)
  have d1: "distinct (map fst ?L1)" unfolding f1 using dD by (rule distinct_map_filter)
  have f2: "map fst ?L2 = filter (\<lambda>d. sum_list (recorded_degrees ucs d) \<noteq> 0) (remdups (map dim ucs))"
    by (simp add: comp_def)
  have d2: "distinct (map fst ?L2)" unfolding f2 by simp
  have "set ?L1 = set ?L2"
  proof (intro set_eqI iffI)
    fix x assume "x \<in> set ?L1"
    then obtain k v where kv: "(k, v) \<in> set D" "sum_list v \<noteq> 0" "x = (k, combine_degrees v)" by auto
    then have "v = recorded_degrees ucs k" "k \<in> set (map dim ucs)" using memD rec_ne by auto
    then show "x \<in> set ?L2" using kv by (auto simp: combine_is_spec_degree)
  next
    fix x assume "x \<in> set ?L2"
    then obtain d where d: "d \<in> set (map dim ucs)" "sum_list (recorded_degrees ucs d) \<noteq> 0"
      "x = (d, spec_degree (recorded_degrees ucs d))" by auto
    then have "(d, recorded_degrees ucs d) \<in> set D" using memD rec_ne by auto
    then show "x \<in> set ?L1" using d by (force simp: combine_is_spec_degree)
  qed
  from sort_key_fst_unique[OF d1 d2 this] show ?thesis by (simp add: spec_signature_def)
qed

section \<open>Equality of quantity values\<close>

lemma convert_simple:
  assumes "parse_unit reg u = Inr (sg, sa)" "parse_unit reg u' = Inr (sg', sb)"
  shows "convert_to reg (SimpleQuantity v u) u' =
           (if sg \<noteq> sg' then Inl AttributeError
            else if sb = 0 then Inl ZeroDivisionError
            else Inr (Num (v * (sa / sb))))"
  using assms by (auto simp: convert_to_def Let_def)

lemma convert_range:
  assumes "parse_unit reg u = Inr (sg, sa)" "parse_unit reg u' = Inr (sg', sb)"
  shows "convert_to reg (RangeQuantity a b u) u' =
           (if sg \<noteq> sg' then Inl AttributeError
            else if sb = 0 then Inl ZeroDivisionError
            else if sa / sb = 1 then Inr (Tup a b)
            else (case times_ratio a (sa / sb) of
                         Inl e \<Rightarrow> Inl e
                       | Inr from_value \<Rightarrow>
                           (case times_ratio b (sa / sb) of
                              Inl e \<Rightarrow> Inl e
                            | Inr to_value \<Rightarrow> Inr (Tup from_value to_value))))"
  using assms by (auto simp: convert_to_def Let_def)

lemma times_ratio_Inr: "times_ratio a r = Inr c \<longleftrightarrow> (\<exists>x. a = Num x \<and> c = Num (x * r))"
  by (cases a) auto

lemma range_scaled_iff:
  assumes "r \<noteq> 0" "r' = 1 / r"
  shows "(case times_ratio a r of Inl e \<Rightarrow> Inl e
          | Inr f \<Rightarrow> (case times_ratio b r of Inl e \<Rightarrow> Inl e | Inr t \<Rightarrow> Inr (Tup f t)))
           = (Inr (Tup a' b') :: error + pyval)
         \<longleftrightarrow>
         (case times_ratio a' r' of Inl e \<Rightarrow> Inl e
          | Inr f \<Rightarrow> (case times_ratio b' r' of Inl e \<Rightarrow> Inl e | Inr t \<Rightarrow> Inr (Tup f t)))
           = (Inr (Tup a b) :: error + pyval)"
  using assms by (cases a; cases b; cases a'; cases b') auto

section \<open>Properties of the merge passes\<close>

subsection \<open>The loops are streaming reductions\<close>

lemma adjacent_loop_stream:
  "adjacent_loop reg merged rest = stream (adjacent_step reg) merged rest"
  by (induction rest arbitrary: merged)
     (simp_all add: adjacent_step_def Let_def split: sum.splits)

lemma range_loop_stream:
  "range_loop reg pats d merged rest = stream (range_step reg pats d) merged rest"
  by (induction rest arbitrary: merged)
     (simp_all add: range_step_def Let_def split: sum.splits)

lemma stable_snoc2:
  "stable step (xs @ [a, b]) \<longleftrightarrow> stable step (xs @ [a]) \<and> step a b = Inr None"
  by (induction step xs rule: stable.induct) auto

lemma stable_replace_last:
  assumes "stable step (xs @ [l])"
    and "\<And>p. step p l = Inr None \<Longrightarrow> step p n = Inr None"
  shows "stable step (xs @ [n])"
  using assms by (induction step xs rule: stable.induct) auto

lemma stable_middle:
  "stable step (xs @ a # b # ys) \<Longrightarrow> step a b = Inr None"
  by (induction step xs rule: stable.induct) auto

lemma stream_stable:
  assumes grow: "\<And>l e e2 e'. step l e = Inr None \<Longrightarrow> step e e2 = Inr (Some e')
                   \<Longrightarrow> step l e' = Inr None"
  shows "stream step merged rest = Inr ys \<Longrightarrow> merged \<noteq> [] \<Longrightarrow> stable step merged
           \<Longrightarrow> stable step ys"
proof (induction rest arbitrary: merged)
  case Nil
  then show ?case by simp
next
  case (Cons e rest)
  obtain pre l where m: "merged = pre @ [l]"
    using Cons.prems(2) by (metis append_butlast_last_id)
  show ?case
  proof (cases "step l e")
    case (Inl err)
    then show ?thesis using Cons.prems(1) m by simp
  next
    case (Inr r)
    show ?thesis
    proof (cases r)
      case None
      have "stable step (merged @ [e])"
        using Cons.prems(3) Inr None unfolding m by (simp add: stable_snoc2)
      moreover have "stream step (merged @ [e]) rest = Inr ys"
        using Cons.prems(1) Inr None m by simp
      ultimately show ?thesis using Cons.IH[of "merged @ [e]"] by simp
    next
      case (Some n)
      have "stable step (pre @ [n])"
        using stable_replace_last[of step pre l n] Cons.prems(3) grow Inr Some unfolding m by blast
      moreover have "stream step (pre @ [n]) rest = Inr ys"
        using Cons.prems(1) Inr Some m by simp
      ultimately show ?thesis using Cons.IH[of "pre @ [n]"] by simp
    qed
  qed
qed

lemma stream_on_stable:
  "stable step (merged @ rest) \<Longrightarrow> merged \<noteq> [] \<Longrightarrow> stream step merged rest = Inr (merged @ rest)"
proof (induction rest arbitrary: merged)
  case Nil
  then show ?case by simp
next
  case (Cons e rest)
  obtain pre l where m: "merged = pre @ [l]"
    using Cons.prems(2) by (metis append_butlast_last_id)
  have "step l e = Inr None" using Cons.prems(1) stable_middle[of step pre l e rest] unfolding m by simp
  moreover have "stream step (merged @ [e]) rest = Inr ((merged @ [e]) @ rest)"
    using Cons.IH[of "merged @ [e]"] Cons.prems(1) by simp
  ultimately show ?case using m by simp
qed

lemma stream_nonempty:
  "stream step merged rest = Inr ys \<Longrightarrow> merged \<noteq> [] \<Longrightarrow> ys \<noteq> []"
  by (induction rest arbitrary: merged) (auto split: sum.splits option.splits)

lemma stream_idempotent:
  assumes grow: "\<And>l e e2 e'. step l e = Inr None \<Longrightarrow> step e e2 = Inr (Some e')
                   \<Longrightarrow> step l e' = Inr None"
    and run: "stream step (take 1 xs) (drop 1 xs) = Inr ys"
  shows "stream step (take 1 ys) (drop 1 ys) = Inr ys"
proof (cases xs)
  case Nil
  then show ?thesis using run by simp
next
  case (Cons x xs')
  have r: "stream step [x] xs' = Inr ys" using run Cons by simp
  have st: "stable step ys" using stream_stable[OF grow r] by simp
  have ne: "ys \<noteq> []" using stream_nonempty[OF r] by simp
  then obtain y ys' where y: "ys = y # ys'" by (cases ys) auto
  show ?thesis using stream_on_stable[of step "[y]" ys'] st unfolding y by simp
qed

subsection \<open>A pair that did not merge does not merge after the right span has grown\<close>

lemma convert_to_split:
  "convert_to reg q u =
     (case ratio_of reg (unit_of q) u of Inl e \<Rightarrow> Inl e | Inr r \<Rightarrow> scale_value q r)"
  by (cases q) (auto simp: convert_to_def ratio_of_def Let_def split: sum.splits)

lemma scale_value_error: "scale_value q r = Inl e \<Longrightarrow> e = TypeError"
  by (cases q) (auto split: if_splits sum.splits elim: times_ratio.elims)

lemma scale_value_range_error:
  "scale_value (RangeQuantity a b u) r = Inl e \<Longrightarrow>
   scale_value (RangeQuantity (Tup a b) c u') r = Inl TypeError"
  by (auto split: if_splits)

lemma quantity_add_Inr:
  "quantity_add reg a b = Inr c \<Longrightarrow>
     \<exists>v v'. a = SimpleQuantity v (unit_of a) \<and> c = SimpleQuantity v' (unit_of a)"
  by (cases a) (auto split: if_splits sum.splits pyval.splits)

lemma quantity_add_error_stable:
  assumes "quantity_add reg a (SimpleQuantity v u) = Inl e" "unit_of a \<noteq> u"
  shows "quantity_add reg a (SimpleQuantity v' u) = Inl e"
  using assms
  by (cases a) (auto simp: convert_to_split split: if_splits sum.splits pyval.splits)

lemma adjacent_step_grow:
  assumes a: "adjacent_step reg l e = Inr None"
    and b: "adjacent_step reg e e2 = Inr (Some e')"
  shows "adjacent_step reg l e' = Inr None"
proof -
  from b obtain nv where nv: "quantity_add reg (ent_value e) (ent_value e2) = Inr nv"
    and e': "e' = \<lparr>ent_start = ent_start e, ent_end = ent_end e2,
                    ent_label = ent_label e2, ent_value = nv\<rparr>"
    by (auto simp: adjacent_step_def split: if_splits sum.splits)
  from quantity_add_Inr[OF nv] obtain v v' where
    ev: "ent_value e = SimpleQuantity v (unit_of (ent_value e))"
    and nvv: "nv = SimpleQuantity v' (unit_of (ent_value e))" by blast
  show ?thesis
  proof (cases "ent_end l = ent_start e \<and> unit_of (ent_value l) \<noteq> unit_of (ent_value e)")
    case False
    then show ?thesis using e' nvv by (auto simp: adjacent_step_def)
  next
    case True
    from a True obtain err where err: "quantity_add reg (ent_value l) (ent_value e) = Inl err"
      "caught err"
      by (auto simp: adjacent_step_def split: sum.splits if_splits)
    have "quantity_add reg (ent_value l) (SimpleQuantity v (unit_of (ent_value e))) = Inl err"
      using err(1) ev by simp
    from quantity_add_error_stable[OF this] True
    have "quantity_add reg (ent_value l) nv = Inl err" unfolding nvv by simp
    then show ?thesis using True err(2) e' nvv by (simp add: adjacent_step_def)
  qed
qed

lemma matching_fst_None:
  assumes "from_markers pats = []"
  shows "\<forall>p \<in> set (matching_patterns pats f t). fst p = None"
proof -
  have "\<forall>p \<in> set pats. fst p = None"
    using assms by (induction pats) (auto simp: from_markers_def split: option.splits)
  then show ?thesis by (auto simp: matching_patterns_def)
qed

lemma from_quantities_error_stable:
  assumes "from_quantities reg a b = Inl err" "caught err"
  shows "\<exists>err'. from_quantities reg a (RangeQuantity (value_of b) c (unit_of b)) = Inl err'
           \<and> caught err'"
proof (cases "ratio_of reg (unit_of b) (unit_of a)")
  case (Inl e)
  then show ?thesis using assms by (auto simp: from_quantities_def convert_to_split)
next
  case (Inr r)
  then have s: "scale_value b r = Inl err"
    using assms(1) by (auto simp: from_quantities_def convert_to_split split: sum.splits)
  then obtain x y u where b: "b = RangeQuantity x y u" by (cases b) auto
  from s have "scale_value (RangeQuantity (Tup x y) c u) r = Inl TypeError"
    unfolding b by (rule scale_value_range_error)
  then show ?thesis using Inr b by (auto simp: from_quantities_def convert_to_split caught_def)
qed

lemma from_quantities_Inr:
  "from_quantities reg a b = Inr c \<Longrightarrow> \<exists>bv. c = RangeQuantity (value_of a) bv (unit_of a)"
  by (auto simp: from_quantities_def split: sum.splits)

lemma range_step_grow:
  assumes nm: "from_markers pats = []"
    and a: "range_step reg pats d l e = Inr None"
    and b: "range_step reg pats d e e2 = Inr (Some e')"
  shows "range_step reg pats d l e' = Inr None"
proof -
  let ?m = "\<lambda>x y. matching_patterns pats
      (if ent_start x > 0 then Some (norm_at d (ent_start x - 1)) else None)
      (text_between d (ent_end x) (ent_start y))"
  from b have mne: "?m e e2 \<noteq> []" by (auto simp: range_step_def Let_def split: if_splits)
  then have "hd (?m e e2) \<in> set (?m e e2)" by simp
  then have hdn: "fst (hd (?m e e2)) = None" using matching_fst_None[OF nm] by blast
  from b mne hdn obtain nv where nv: "from_quantities reg (ent_value e) (ent_value e2) = Inr nv"
    and e': "e' = \<lparr>ent_start = ent_start e, ent_end = ent_end e2,
                    ent_label = ent_label e2, ent_value = nv\<rparr>"
    by (auto simp: range_step_def Let_def split: if_splits sum.splits)
  from from_quantities_Inr[OF nv] obtain bv where
    nvv: "nv = RangeQuantity (value_of (ent_value e)) bv (unit_of (ent_value e))" by blast
  have same: "?m l e' = ?m l e" using e' by simp
  show ?thesis
  proof (cases "?m l e = []")
    case True
    then show ?thesis using same by (simp add: range_step_def Let_def)
  next
    case False
    from a False obtain err where err: "from_quantities reg (ent_value l) (ent_value e) = Inl err"
      "caught err"
      by (auto simp: range_step_def Let_def split: sum.splits if_splits)
    from from_quantities_error_stable[OF err, of bv] obtain err' where
      "from_quantities reg (ent_value l) nv = Inl err'" "caught err'" unfolding nvv by blast
    then show ?thesis using False same e' by (simp add: range_step_def Let_def)
  qed
qed

subsection \<open>Evaluations of the merge passes\<close>

lemma range_pass_first_run: "merge_quantities_in_ranges example_matcher example_doc
     [qspan 0 2 (SimpleQuantity 2 ''cm''), qspan 4 5 (SimpleQuantity 3 ''cm''),
      qspan 6 8 (SimpleQuantity 4 ''cm'')]
   = Inr [qspan 0 2 (SimpleQuantity 2 ''cm''),
          qspan 3 8 (RangeQuantity (Num 3) (Num 4) ''cm'')]"
  by code_simp

lemma range_pass_second_run: "merge_quantities_in_ranges example_matcher example_doc
     [qspan 0 2 (SimpleQuantity 2 ''cm''),
          qspan 3 8 (RangeQuantity (Num 3) (Num 4) ''cm'')]
   = Inr [qspan 0 8 (RangeQuantity (Num 2) (Tup (Num 3) (Num 4)) ''cm'')]"
  by code_simp

lemma adjacent_pass_metre: "merge_adjacent_quantities example_registry
     [qspan 0 2 (SimpleQuantity 1 ''m''), qspan 2 3 (SimpleQuantity 50 ''cm'')]
   = Inr [qspan 0 3 (SimpleQuantity (3/2) ''m'')]"
  by code_simp


subsection \<open>Order of the spans\<close>




subsection \<open>The range pass on the last span and a scalar\<close>

lemma find_filter_hd:
  "List.find P xs = Some x \<Longrightarrow> \<exists>ys. filter P xs = x # ys"
  by (induction xs) (auto split: if_splits)

lemma matching_patterns_find:
  assumes "List.find (pattern_matches from_text to_text) pats = Some (a, b)"
  shows "\<exists>others. matching_patterns pats from_text to_text = (a, b) # others"
  using find_filter_hd[OF assms] by (simp add: matching_patterns_def pattern_matches_def)

lemma range_step_scalars:
  assumes first: "List.find (pattern_matches
                     (if ent_start p > 0 then Some (norm_at d (ent_start p - 1)) else None)
                     (text_between d (ent_end p) (ent_start q))) pats = Some (a, b)"
    and vq: "ent_value q = SimpleQuantity vq uq"
    and hq: "parse_unit reg uq = Inr (sg, sq)"
    and hp: "parse_unit reg (unit_of (ent_value p)) = Inr (sg, sp)"
    and nz: "sp \<noteq> 0"
  shows "range_step reg pats d p q =
           Inr (Some \<lparr>ent_start = (if a = None then ent_start p else ent_start p - 1),
                      ent_end = ent_end q, ent_label = ent_label q,
                      ent_value = RangeQuantity (value_of (ent_value p)) (Num (vq * (sq / sp)))
                                    (unit_of (ent_value p))\<rparr>)"
proof -
  from matching_patterns_find[OF first] obtain others where
    m: "matching_patterns pats
          (if ent_start p > 0 then Some (norm_at d (ent_start p - 1)) else None)
          (text_between d (ent_end p) (ent_start q)) = (a, b) # others" by blast
  have c: "convert_to reg (SimpleQuantity vq uq) (unit_of (ent_value p)) = Inr (Num (vq * (sq / sp)))"
    using convert_simple[OF hq hp] nz by simp
  show ?thesis
    by (simp add: range_step_def Let_def m vq from_quantities_def c)
qed

lemma range_step_not_homogeneous:
  assumes first: "List.find (pattern_matches
                     (if ent_start p > 0 then Some (norm_at d (ent_start p - 1)) else None)
                     (text_between d (ent_end p) (ent_start q))) pats = Some (a, b)"
    and vq: "ent_value q = SimpleQuantity vq uq"
    and hq: "parse_unit reg uq = Inr (sgq, sq)"
    and hp: "parse_unit reg (unit_of (ent_value p)) = Inr (sgp, sp)"
    and ne: "sgq \<noteq> sgp"
  shows "range_step reg pats d p q = Inr None"
proof -
  from matching_patterns_find[OF first] obtain others where
    m: "matching_patterns pats
          (if ent_start p > 0 then Some (norm_at d (ent_start p - 1)) else None)
          (text_between d (ent_end p) (ent_start q)) = (a, b) # others" by blast
  have c: "convert_to reg (SimpleQuantity vq uq) (unit_of (ent_value p)) = Inl AttributeError"
    using convert_simple[OF hq hp] ne by simp
  show ?thesis
    by (simp add: range_step_def Let_def m vq from_quantities_def c caught_def)
qed

lemma range_step_zero_scale:
  assumes first: "List.find (pattern_matches
                     (if ent_start p > 0 then Some (norm_at d (ent_start p - 1)) else None)
                     (text_between d (ent_end p) (ent_start q))) pats = Some (a, b)"
    and vq: "ent_value q = SimpleQuantity vq uq"
    and hq: "parse_unit reg uq = Inr (sg, sq)"
    and hp: "parse_unit reg (unit_of (ent_value p)) = Inr (sg, 0)"
  shows "range_step reg pats d p q = Inl ZeroDivisionError"
proof -
  from matching_patterns_find[OF first] obtain others where
    m: "matching_patterns pats
          (if ent_start p > 0 then Some (norm_at d (ent_start p - 1)) else None)
          (text_between d (ent_end p) (ent_start q)) = (a, b) # others" by blast
  have c: "convert_to reg (SimpleQuantity vq uq) (unit_of (ent_value p)) = Inl ZeroDivisionError"
    using convert_simple[OF hq hp] by simp
  show ?thesis
    by (simp add: range_step_def Let_def m vq from_quantities_def c caught_def)
qed
section \<open>Properties of the Linker\<close>

lemma collect_parts_missing:
  "\<exists>a \<in> set parts. map_of cfg a = None \<Longrightarrow> \<exists>k. collect_parts cfg parts degs sc = Inl (KeyError k)"
proof (induction parts arbitrary: degs sc)
  case Nil
  then show ?case by simp
next
  case (Cons p parts)
  show ?case
  proof (cases "map_of cfg p")
    case None
    then show ?thesis by simp
  next
    case (Some uc)
    then have "\<exists>a \<in> set parts. map_of cfg a = None" using Cons.prems by auto
    from Cons.IH[OF this] Some show ?thesis by simp
  qed
qed

lemma parse_unit_missing:
  assumes "\<exists>a \<in> set (split_unit u). map_of reg a = None"
  shows "\<exists>k. parse_unit reg u = Inl (KeyError k)"
proof -
  from collect_parts_missing[OF assms, of "[]" 1] obtain k where
    "collect_parts reg (split_unit u) [] 1 = Inl (KeyError k)" by blast
  then show ?thesis by (auto simp: parse_unit_def)
qed

lemma relabel_length: "length (relabel ms i lbl) = length ms"
  by (simp add: relabel_def)

lemma relabel_other: "k \<noteq> i \<Longrightarrow> relabel ms i lbl ! k = ms ! k"
  by (simp add: relabel_def)

lemma store_quantity_length:
  "length (matches (store_quantity env st i number v ui ut un lbl)) = length (matches st)"
  by (auto simp: store_quantity_def relabel_length split: prod.splits)

lemma store_quantity_other:
  "k \<noteq> i \<Longrightarrow> matches (store_quantity env st i number v ui ut un lbl) ! k = matches st ! k"
  by (auto simp: store_quantity_def relabel_other split: prod.splits)

lemma store_quantity_numbers:
  "matched_number_indices (store_quantity env st i number v ui ut un lbl)
     = insert i (matched_number_indices st)"
  by (auto simp: store_quantity_def split: prod.splits)

lemma link_number_cases:
  assumes "link_number env st i = Inr st'"
  shows "st' = st \<or> (\<exists>number v ui ut un lbl. st' = store_quantity env st i number v ui ut un lbl)"
proof (cases "st' = st")
  case True
  then show ?thesis by simp
next
  case False
  then show ?thesis using assms
    by (simp add: link_number_def split: list.splits if_splits sum.splits option.splits
        prod.splits error.splits) blast+
qed

lemma link_number_frame:
  assumes "link_number env st i = Inr st'"
  shows "length (matches st') = length (matches st)
   \<and> (\<forall>k. k \<noteq> i \<longrightarrow> matches st' ! k = matches st ! k)
   \<and> matched_number_indices st' \<subseteq> insert i (matched_number_indices st)"
  using link_number_cases[OF assms]
  by (auto simp: store_quantity_length store_quantity_other store_quantity_numbers)

lemma link_loop_frame:
  "link_loop env st js = Inr st' \<Longrightarrow>
     length (matches st') = length (matches st)
   \<and> (\<forall>k. k \<notin> set js \<longrightarrow> matches st' ! k = matches st ! k)
   \<and> matched_number_indices st' \<subseteq> set js \<union> matched_number_indices st"
proof (induction js arbitrary: st)
  case Nil
  then show ?case by simp
next
  case (Cons j js)
  from Cons.prems obtain st1 where s1: "link_number env st j = Inr st1"
    and s2: "link_loop env st1 js = Inr st'"
    by (auto split: sum.splits)
  from link_number_frame[OF s1] Cons.IH[OF s2] show ?case by auto
qed

lemma link_loop_append:
  "link_loop env st (xs @ ys) =
     (case link_loop env st xs of Inl e \<Rightarrow> Inl e | Inr st' \<Rightarrow> link_loop env st' ys)"
  by (induction xs arbitrary: st) (auto split: sum.splits)

lemma link_number_unknown_unit:
  assumes m: "drop i (matches st) = (number, is_sent_split) # rest"
    and v: "parse_value env number = Inr v"
    and r: "resolve_unit env st i number v = Inr (unit_idx, unit_text, Some u)"
    and k: "parse_unit (unit_registry (env_matcher env)) u = Inl (KeyError a)"
  shows "link_number env st i = Inr st"
  using assms by (simp add: link_number_def)

lemma unmatched_number:
  assumes "i < length (matches st)" "matches st ! i = (number, b)"
    "span_label number \<in> set (number_label_hashes (env_matcher env))"
    "i \<notin> matched_number_indices st"
  shows "number \<in> set (unmatched env st)"
proof -
  have "(i, number, b) \<in> set (enumerate 0 (matches st))"
    using assms(1,2) by (auto simp: in_set_enumerate_eq)
  then show ?thesis using assms(3,4) by (force simp: unmatched_def)
qed

lemma env_matcher_link_env_of [simp]:
  "env_matcher (link_env_of self d ev tables ms ul a b) = self"
  by (simp add: link_env_of_def split: prod.splits)





subsection \<open>The pseudo sentence and the backward search\<close>

lemma pseudo_loop_offsets:
  "pseudo_loop d mp lst ps offs ms = (ps', offs', lst') \<Longrightarrow>
     length offs' = length offs + length ms
   \<and> length ps \<le> length ps'
   \<and> (\<forall>q < length ps. ps' ! q = ps ! q)
   \<and> (\<forall>k < length offs. offs' ! k = offs ! k)
   \<and> (\<forall>k < length ms. length ps \<le> offs' ! (length offs + k)
          \<and> offs' ! (length offs + k) < length ps'
          \<and> ps' ! (offs' ! (length offs + k)) = code_of mp (ms ! k))
   \<and> (\<forall>k l. k < l \<and> l < length ms
          \<longrightarrow> offs' ! (length offs + k) < offs' ! (length offs + l))"
proof (induction ms arbitrary: lst ps offs)
  case Nil
  then show ?case by simp
next
  case (Cons m ms)
  obtain ent b where m: "m = (ent, b)" by (cases m)
  define ps1 where "ps1 = (if span_start ent \<noteq> lst \<and> \<not> blank_between d lst (span_start ent)
                 then ps @ ''w'' else ps)"
  define c where "c = code_of mp m"
  have rec: "pseudo_loop d mp (span_end ent) (ps1 @ [c]) (offs @ [length ps1]) ms = (ps', offs', lst')"
    using Cons.prems
    by (simp only: m pseudo_loop.simps Let_def ps1_def c_def code_of_def fst_conv snd_conv)
  note IH = Cons.IH[OF rec]
  have l1: "length ps \<le> length ps1" by (simp add: ps1_def)
  have p1: "\<And>q. q < length ps \<Longrightarrow> ps1 ! q = ps ! q" by (simp add: ps1_def nth_append)
  from IH have len: "length offs' = length offs + length (m # ms)" by simp
  from IH have lps: "length ps \<le> length ps'" using l1 by simp
  from IH have pre: "\<forall>q < length ps. ps' ! q = ps ! q"
    using l1 p1 by (auto simp: nth_append)
  from IH have offpre: "\<forall>k < length offs. offs' ! k = offs ! k"
    by (auto simp: nth_append)
  from IH have o0: "offs' ! length offs = length ps1"
    by (auto simp: nth_append dest: spec[of _ "length offs"])
  from IH have c0: "ps' ! length ps1 = c" "length ps1 < length ps'"
    by (auto simp: nth_append dest: spec[of _ "length ps1"])
  from IH have tail: "\<forall>k < length ms. length ps1 + 1 \<le> offs' ! (length offs + 1 + k)
          \<and> offs' ! (length offs + 1 + k) < length ps'
          \<and> ps' ! (offs' ! (length offs + 1 + k)) = code_of mp (ms ! k)" by simp
  from IH have mono: "\<forall>k l. k < l \<and> l < length ms
          \<longrightarrow> offs' ! (length offs + 1 + k) < offs' ! (length offs + 1 + l)" by simp
  have each: "\<forall>k < length (m # ms). length ps \<le> offs' ! (length offs + k)
          \<and> offs' ! (length offs + k) < length ps'
          \<and> ps' ! (offs' ! (length offs + k)) = code_of mp ((m # ms) ! k)"
  proof (intro allI impI)
    fix k assume k: "k < length (m # ms)"
    show "length ps \<le> offs' ! (length offs + k)
          \<and> offs' ! (length offs + k) < length ps'
          \<and> ps' ! (offs' ! (length offs + k)) = code_of mp ((m # ms) ! k)"
    proof (cases k)
      case 0
      then show ?thesis using o0 c0 l1 c_def by simp
    next
      case (Suc k')
      then have "k' < length ms" using k by simp
      with tail have "length ps1 + 1 \<le> offs' ! (length offs + 1 + k')
          \<and> offs' ! (length offs + 1 + k') < length ps'
          \<and> ps' ! (offs' ! (length offs + 1 + k')) = code_of mp (ms ! k')" by blast
      then show ?thesis using Suc l1 by simp
    qed
  qed
  have incr: "\<forall>k l. k < l \<and> l < length (m # ms)
          \<longrightarrow> offs' ! (length offs + k) < offs' ! (length offs + l)"
  proof (intro allI impI)
    fix k l assume kl: "k < l \<and> l < length (m # ms)"
    then obtain l' where l': "l = Suc l'" "l' < length ms" by (cases l) auto
    show "offs' ! (length offs + k) < offs' ! (length offs + l)"
    proof (cases k)
      case 0
      from tail l'(2) have "length ps1 + 1 \<le> offs' ! (length offs + 1 + l')" by blast
      then show ?thesis using 0 o0 l'(1) by simp
    next
      case (Suc k')
      then have "k' < l'" using kl l'(1) by simp
      with mono l'(2) have "offs' ! (length offs + 1 + k') < offs' ! (length offs + 1 + l')"
        by blast
      then show ?thesis using Suc l'(1) by simp
    qed
  qed
  show ?case using len lps pre offpre each incr by blast
qed

lemma before_scan_prefix:
  "\<exists>n. before_scan a xs = map (\<lambda>(j, e, b). (j, e)) (take n xs)"
proof (induction xs)
  case Nil
  then show ?case by simp
next
  case (Cons x xs)
  obtain j e b where x: "x = (j, e, b)" by (cases x)
  from Cons obtain n where n: "before_scan a xs = map (\<lambda>(j, e, b). (j, e)) (take n xs)" by blast
  show ?case
  proof (cases "\<not> b \<and> span_end e < a - BEFORE_SNIPPET_LIMIT")
    case True
    then have "before_scan a (x # xs) = map (\<lambda>(j, e, b). (j, e)) (take 0 (x # xs))"
      using x by simp
    then show ?thesis by blast
  next
    case False
    then have "before_scan a (x # xs) = map (\<lambda>(j, e, b). (j, e)) (take (Suc n) (x # xs))"
      using x n by simp
    then show ?thesis by blast
  qed
qed

lemma get_matches_before_shape:
  "\<exists>n. get_matches_before ms i =
         map (\<lambda>(j, e, b). (j, e)) (take n (rev (enumerate 0 (take (Suc i) ms))))"
proof (cases "drop i ms")
  case Nil
  then have "get_matches_before ms i = map (\<lambda>(j, e, b). (j, e)) (take 0 (rev (enumerate 0 (take (Suc i) ms))))"
    by (simp add: get_matches_before_def)
  then show ?thesis by blast
next
  case (Cons a list)
  obtain anchor b where a: "a = (anchor, b)" by (cases a)
  show ?thesis using before_scan_prefix[of "span_start anchor" "rev (enumerate 0 (take (Suc i) ms))"]
      Cons a by (simp add: get_matches_before_def)
qed

lemma get_matches_before_nonempty:
  "x \<in> set (get_matches_before ms i) \<Longrightarrow> i < length ms"
  by (cases "i < length ms") (auto simp: get_matches_before_def)

lemma get_matches_before_fst:
  "\<exists>n. map fst (get_matches_before ms i) = take n (rev [0..<length (take (Suc i) ms)])"
proof -
  from get_matches_before_shape obtain n where
    n: "get_matches_before ms i =
         map (\<lambda>(j, e, b). (j, e)) (take n (rev (enumerate 0 (take (Suc i) ms))))" by blast
  have "map fst (map (\<lambda>(j, e, b). (j, e)) (take n (rev (enumerate 0 (take (Suc i) ms)))))
          = map fst (take n (rev (enumerate 0 (take (Suc i) ms))))"
    by (simp add: case_prod_unfold comp_def)
  also have "\<dots> = take n (rev (map fst (enumerate 0 (take (Suc i) ms))))"
    by (simp only: take_map rev_map)
  also have "\<dots> = take n (rev [0..<length (take (Suc i) ms)])"
    by (simp only: map_fst_enumerate add_0)
  finally show ?thesis unfolding n by blast
qed

lemma get_matches_before_member:
  assumes "(j, e) \<in> set (get_matches_before ms i)"
  shows "j \<le> i \<and> j < length ms \<and> e = fst (ms ! j)"
proof -
  from get_matches_before_shape obtain n where
    n: "get_matches_before ms i =
         map (\<lambda>(j, e, b). (j, e)) (take n (rev (enumerate 0 (take (Suc i) ms))))" by blast
  from assms obtain b where "(j, e, b) \<in> set (take n (rev (enumerate 0 (take (Suc i) ms))))"
    unfolding n by auto
  then have "(j, e, b) \<in> set (enumerate 0 (take (Suc i) ms))" by (auto dest: in_set_takeD)
  then show ?thesis by (auto simp: in_set_enumerate_eq)
qed

lemma get_matches_before_decreasing:
  "sorted_wrt (\<lambda>a b. fst b < fst a) (get_matches_before ms i)"
proof -
  from get_matches_before_fst obtain n where
    n: "map fst (get_matches_before ms i) = take n (rev [0..<length (take (Suc i) ms)])" by blast
  have "sorted_wrt (\<lambda>a b. b < a) (rev [0..<length (take (Suc i) ms)])"
    by (simp add: sorted_wrt_rev)
  then have "sorted_wrt (\<lambda>a b. b < a) (map fst (get_matches_before ms i))"
    unfolding n by (rule sorted_wrt_take)
  then show ?thesis by (simp add: sorted_wrt_map)
qed

lemma find_first_greatest:
  fixes j k :: nat
  assumes "List.find P xs = Some (k, t)" "(j, t') \<in> set xs" "P (j, t')"
    "sorted_wrt (\<lambda>a b. fst b < fst a) xs"
  shows "j \<le> k"
proof -
  from assms(1) obtain p where p: "p < length xs" "xs ! p = (k, t)" "\<forall>q<p. \<not> P (xs ! q)"
    by (auto simp: find_Some_iff)
  from assms(2) obtain q where q: "q < length xs" "xs ! q = (j, t')"
    by (auto simp: in_set_conv_nth)
  have "\<not> q < p" using p(3) q(2) assms(3) by auto
  then have "p = q \<or> p < q" by auto
  then show ?thesis
  proof
    assume "p = q"
    then show ?thesis using p q by simp
  next
    assume "p < q"
    then have "fst (xs ! q) < fst (xs ! p)" using assms(4) q(1) by (auto simp: sorted_wrt_iff_nth_less)
    then show ?thesis using p q by simp
  qed
qed

lemma slice_member:
  assumes "a < c" "c < b" "c < length xs"
  shows "xs ! c \<in> set (slice xs (int a + 1) (int b))"
proof -
  have s: "slice xs (int a + 1) (int b) = take (b - Suc a) (drop (Suc a) xs)"
    by (simp add: slice_def nat_add_distrib)
  have "take (b - Suc a) (drop (Suc a) xs) ! (c - Suc a) = xs ! c"
    using assms by auto
  moreover have "c - Suc a < length (take (b - Suc a) (drop (Suc a) xs))"
    using assms by auto
  ultimately show ?thesis unfolding s by (metis nth_mem)
qed

lemma link_env_of_offsets:
  assumes "env = link_env_of self d ev tables ms ul s e"
  shows "length (offsets env) = length ms
   \<and> (\<forall>k < length ms. offsets env ! k < length (pseudo env)
          \<and> pseudo env ! (offsets env ! k) = code_of (pseudo_mapping self ul) (ms ! k))
   \<and> (\<forall>k l. k < l \<and> l < length ms \<longrightarrow> offsets env ! k < offsets env ! l)"
proof -
  obtain ps offs lst where pl: "pseudo_loop d (pseudo_mapping self ul) s [] [] ms = (ps, offs, lst)"
    by (cases "pseudo_loop d (pseudo_mapping self ul) s [] [] ms") auto
  have o: "offsets env = offs"
    and p: "pseudo env = (if e \<noteq> lst \<and> blank_between d lst e then ps @ ''w'' else ps)"
    using assms pl by (simp_all add: link_env_of_def make_pseudo_sentence_def)
  from pseudo_loop_offsets[OF pl] have
    f1: "length offs = length ms"
    and f2: "\<forall>k < length ms. offs ! k < length ps \<and> ps ! (offs ! k) = code_of (pseudo_mapping self ul) (ms ! k)"
    and f3: "\<forall>k l. k < l \<and> l < length ms \<longrightarrow> offs ! k < offs ! l"
    by simp_all
  have f2': "\<forall>k < length ms. offs ! k < length (pseudo env)
          \<and> pseudo env ! (offs ! k) = code_of (pseudo_mapping self ul) (ms ! k)"
    using f2 unfolding p by (auto simp: nth_append)
  show ?thesis using f1 f2' f3 unfolding o by blast
qed

lemma farther_trigger_blocked:
  assumes env: "env = link_env_of self d ev tables ms ul s e"
    and len: "length (matches st) = length ms"
    and nearest: "List.find (is_trigger env) (get_matches_before (matches st) i) = Some (k, trig)"
    and same: "span_label (fst (ms ! k)) = span_label trig"
    and codes: "\<forall>l \<in> set (unitless_label_hashes self).
                  pseudo_mapping self ul l \<notin> {Some (CHR '',''), Some (CHR '':''), Some (CHR ''n'')}"
    and rejected: "\<not> separators_and_numbers (pseudo_between env k i)"
    and other: "(j, t) \<in> set (get_matches_before (matches st) i)" "is_trigger env (j, t)"
  shows "\<not> separators_and_numbers (pseudo_between env j i)"
proof -
  have em: "env_matcher env = self" using env by (simp add: link_env_of_def split: prod.splits)
  have i: "i < length ms" using get_matches_before_nonempty[OF other(1)] len by simp
  from nearest have kin: "(k, trig) \<in> set (get_matches_before (matches st) i)"
    and ktrig: "span_label trig \<in> set (unitless_label_hashes self)"
    using em by (auto simp: find_Some_iff is_trigger_def) (metis nth_mem)
  from get_matches_before_member[OF kin] have k: "k \<le> i" by simp
  have jk: "j \<le> k"
    using find_first_greatest[OF nearest other get_matches_before_decreasing] .
  from link_env_of_offsets[OF env] have
    code: "\<And>q. q < length ms \<Longrightarrow> offsets env ! q < length (pseudo env)
          \<and> pseudo env ! (offsets env ! q) = code_of (pseudo_mapping self ul) (ms ! q)"
    and mono: "\<And>q r. q < r \<Longrightarrow> r < length ms \<Longrightarrow> offsets env ! q < offsets env ! r"
    by blast+
  have ki: "k \<noteq> i"
  proof
    assume "k = i"
    then have "pseudo_between env k i = []" by (simp add: pseudo_between_def slice_def)
    then show False using rejected by (simp add: separators_and_numbers_def)
  qed
  show ?thesis
  proof (cases "j = k")
    case True
    then show ?thesis using rejected by simp
  next
    case False
    then have j: "j < k" using jk by simp
    have k': "k < i" using k ki by simp
    have kl: "k < length ms" using k' i by simp
    have c: "pseudo env ! (offsets env ! k) = code_of (pseudo_mapping self ul) (ms ! k)"
      and cl: "offsets env ! k < length (pseudo env)" using code[OF kl] by simp_all
    have bad: "code_of (pseudo_mapping self ul) (ms ! k) \<noteq> CHR '',''
             \<and> code_of (pseudo_mapping self ul) (ms ! k) \<noteq> CHR '':''
             \<and> code_of (pseudo_mapping self ul) (ms ! k) \<noteq> CHR ''n''"
      using codes ktrig same by (auto simp: code_of_def split: option.splits)
    have "pseudo env ! (offsets env ! k) \<in> set (pseudo_between env j i)"
      unfolding pseudo_between_def
      using slice_member[of "offsets env ! j" "offsets env ! k" "offsets env ! i" "pseudo env"]
        mono[OF j kl] mono[OF k' i] cl by simp
    then show ?thesis using c bad by (auto simp: separators_and_numbers_def list_all_iff)
  qed
qed
section \<open>Order of the output\<close>

subsection \<open>The merge passes keep separated spans separated\<close>









subsection \<open>The Linker, without tables, stores the quantities in the order of the numbers\<close>


















section \<open>The claims\<close>

text \<open>
  Claim C1, as the code has it. For two values of the same class whose units are registered
  and homogeneous, \<open>a == b\<close> holds exactly when converting the left-hand operand \<open>a\<close>
  into the unit of the right-hand operand \<open>b\<close> succeeds and yields the payload of \<open>b\<close>.
  When moreover both scales are nonzero, this is the same as converting \<open>b\<close> into the unit
  of \<open>a\<close> and obtaining the payload of \<open>a\<close> (in exact arithmetic).
\<close>

theorem eq_converts_left_operand:
  assumes pa: "parse_unit reg ua = Inr (sg, sa)" and pb: "parse_unit reg ub = Inr (sg, sb)"
  shows "(quantity_eq reg (SimpleQuantity va ua) (Quantity (SimpleQuantity vb ub) :: 'a pyobj) = Inr True
            \<longleftrightarrow> convert_to reg (SimpleQuantity va ua) ub = Inr (Num vb))
       \<and> (quantity_eq reg (RangeQuantity fa ta ua) (Quantity (RangeQuantity fb tb ub) :: 'a pyobj) = Inr True
            \<longleftrightarrow> convert_to reg (RangeQuantity fa ta ua) ub = Inr (Tup fb tb))
       \<and> (sa \<noteq> 0 \<and> sb \<noteq> 0 \<longrightarrow>
            (quantity_eq reg (SimpleQuantity va ua) (Quantity (SimpleQuantity vb ub) :: 'a pyobj) = Inr True
               \<longleftrightarrow> convert_to reg (SimpleQuantity vb ub) ua = Inr (Num va))
          \<and> (quantity_eq reg (RangeQuantity fa ta ua) (Quantity (RangeQuantity fb tb ub) :: 'a pyobj) = Inr True
               \<longleftrightarrow> convert_to reg (RangeQuantity fb tb ub) ua = Inr (Tup fa ta)))"
proof (intro conjI impI)
  show "quantity_eq reg (SimpleQuantity va ua) (Quantity (SimpleQuantity vb ub) :: 'a pyobj) = Inr True
            \<longleftrightarrow> convert_to reg (SimpleQuantity va ua) ub = Inr (Num vb)"
    by (auto split: sum.splits)
  show "quantity_eq reg (RangeQuantity fa ta ua) (Quantity (RangeQuantity fb tb ub) :: 'a pyobj) = Inr True
            \<longleftrightarrow> convert_to reg (RangeQuantity fa ta ua) ub = Inr (Tup fb tb)"
    by (auto split: sum.splits)
next
  assume nz: "sa \<noteq> 0 \<and> sb \<noteq> 0"
  show "quantity_eq reg (SimpleQuantity va ua) (Quantity (SimpleQuantity vb ub) :: 'a pyobj) = Inr True
               \<longleftrightarrow> convert_to reg (SimpleQuantity vb ub) ua = Inr (Num va)"
    using nz by (auto simp: convert_simple[OF pa pb] convert_simple[OF pb pa] field_simps)
next
  assume nz: "sa \<noteq> 0 \<and> sb \<noteq> 0"
  have r: "sa / sb \<noteq> 0" using nz by simp
  have inv: "sb / sa = 1 / (sa / sb)" by simp
  have one: "sa / sb = 1 \<longleftrightarrow> sb / sa = 1" using nz by (auto simp: field_simps)
  have "quantity_eq reg (RangeQuantity fa ta ua) (Quantity (RangeQuantity fb tb ub) :: 'a pyobj) = Inr True
      \<longleftrightarrow> convert_to reg (RangeQuantity fa ta ua) ub = Inr (Tup fb tb)"
    by (auto split: sum.splits)
  also have "\<dots> \<longleftrightarrow> convert_to reg (RangeQuantity fb tb ub) ua = Inr (Tup fa ta)"
  proof (cases "sa / sb = 1")
    case True
    then show ?thesis using nz one by (auto simp: convert_range[OF pa pb] convert_range[OF pb pa])
  next
    case False
    then show ?thesis using nz one range_scaled_iff[OF r inv, where a = fa and b = ta and a' = fb and b' = tb]
      by (simp add: convert_range[OF pa pb] convert_range[OF pb pa])
  qed
  finally show "quantity_eq reg (RangeQuantity fa ta ua) (Quantity (RangeQuantity fb tb ub) :: 'a pyobj) = Inr True
               \<longleftrightarrow> convert_to reg (RangeQuantity fb tb ub) ua = Inr (Tup fa ta)" .
qed

theorem eq_converts_left_operand_witness:
  "parse_unit example_registry ''m'' = Inr ([(''length'', 1)], 100)
   \<and> parse_unit example_registry ''cm'' = Inr ([(''length'', 1)], 1)
   \<and> quantity_eq example_registry (SimpleQuantity 2 ''m'') (Quantity (SimpleQuantity 200 ''cm'') :: unit pyobj) = Inr True
   \<and> convert_to example_registry (SimpleQuantity 200 ''cm'') ''m'' = Inr (Num 2)"
proof -
  have c: "convert_to example_registry (SimpleQuantity 2 ''m'') ''cm'' = Inr (Num 200)"
    by (simp add: convert_simple[OF parse_m parse_cm])
  show ?thesis
    using eq_converts_left_operand[OF parse_m parse_cm, of 2 200 "Num 0" "Num 0" "Num 0" "Num 0", where ?'a = unit] c
      parse_m parse_cm
    by simp
qed

text \<open>
  Claim C1 as stated fails on a registered unit of scale zero: \<^verbatim>\<open>per_z\<close> and \<^verbatim>\<open>cm\<close> are
  registered and homogeneous, \<open>5 per_z == 0 cm\<close> holds, and converting the right-hand operand
  into \<^verbatim>\<open>per_z\<close> raises \<^verbatim>\<open>ZeroDivisionError\<close> instead of yielding \<open>5\<close>.
\<close>

theorem eq_spec_direction_counterexample:
  "UnitRegistry_init example_units = Inr example_registry
   \<and> parse_unit example_registry ''per_z'' = Inr ([(''length'', 1)], 0)
   \<and> parse_unit example_registry ''cm'' = Inr ([(''length'', 1)], 1)
   \<and> quantity_eq example_registry (SimpleQuantity 5 ''per_z'') (Quantity (SimpleQuantity 0 ''cm'') :: unit pyobj) = Inr True
   \<and> convert_to example_registry (SimpleQuantity 0 ''cm'') ''per_z'' = Inl ZeroDivisionError
   \<and> \<not> (quantity_eq example_registry (SimpleQuantity 5 ''per_z'')
             (Quantity (SimpleQuantity 0 ''cm'') :: unit pyobj) = Inr True
          \<longleftrightarrow> convert_to example_registry (SimpleQuantity 0 ''cm'') ''per_z'' = Inr (Num 5))"
  by (simp add: example_registry_init parse_per_z parse_cm convert_simple[OF parse_per_z parse_cm]
      convert_simple[OF parse_cm parse_per_z])

text \<open>
  Claim C2 fails on the code: the searches compare with the module constants
  \<^verbatim>\<open>AFTER_SNIPPET_LIMIT = 6\<close> and \<^verbatim>\<open>BEFORE_SNIPPET_LIMIT = 10\<close>, and never read the configured
  limits. With both limits configured as 2, in \<^verbatim>\<open>1 , 2 , 3 cm\<close> the forward search from
  \<^verbatim>\<open>1\<close> still yields the unit that starts four tokens after the number's end, and the number
  is linked to it; in \<^verbatim>\<open>poids : : : 65\<close> the backward search still yields the trigger that
  ends three tokens before the number's start, and the number gets its unit.
\<close>

theorem configured_limits_ignored:
  "after_snippet_limit (example_matcher\<lparr>after_snippet_limit := 2, before_snippet_limit := 2\<rparr>) = 2
   \<and> before_snippet_limit (example_matcher\<lparr>after_snippet_limit := 2, before_snippet_limit := 2\<rparr>) = 2
   \<and> extract_quantities (example_matcher\<lparr>after_snippet_limit := 2, before_snippet_limit := 2\<rparr>)
        enum_doc example_eval [] enum_matches [''cm''] 0 6
      = Inr ([qspan 0 1 (SimpleQuantity 1 ''cm''), qspan 2 3 (SimpleQuantity 2 ''cm''),
              qspan 4 6 (SimpleQuantity 3 ''cm'')], [])
   \<and> get_matches_after enum_matches 0 ! 4 = (5, fst (mspan 5 6 ''cm'' ''cm''))
   \<and> span_start (fst (mspan 5 6 ''cm'' ''cm'')) > span_end (fst (mspan 0 1 ''number'' ''1'')) + 2
   \<and> extract_quantities (example_matcher\<lparr>after_snippet_limit := 2, before_snippet_limit := 2\<rparr>)
        far_doc example_eval [] far_matches [] 0 5
      = Inr ([\<lparr>ent_start = 4, ent_end = 5, ent_label = ''weight'',
               ent_value = SimpleQuantity 65 ''kg''\<rparr>], [])
   \<and> get_matches_before far_matches 4 ! 4 = (0, fst (mspan 0 1 ''unitless_0'' ''poids''))
   \<and> span_end (fst (mspan 0 1 ''unitless_0'' ''poids'')) < span_start (fst (mspan 4 5 ''number'' ''65'')) - 2"
  by code_simp

text \<open>
  Claim C3. Let \<open>U\<close> be a unit atom registered at construction (a key of the configuration
  dictionary that \<open>parse_unit\<close> does not cut) that does not start with the reciprocal marker
  \<^verbatim>\<open>per_\<close>. Then the registry that the constructor returns parses \<^verbatim>\<open>"per_" + U\<close> to the
  dimension-wise negation of the signature of \<open>U\<close> and to the reciprocal of the scale of
  \<open>U\<close>. The degree of \<open>U\<close> may be zero as well: both signatures are then empty.
  A key without underscore is such an atom (lemma \<open>no_underscore_is_atom\<close>).
\<close>

theorem reciprocal_atom:
  assumes init: "UnitRegistry_init config = Inr reg"
    and dict: "distinct (map fst config)"
    and reg: "map_of config U = Some uc"
    and nonper: "\<not> startswith ''per_'' U"
    and atom: "split_unit U = [U]"
  shows "\<exists>sig sc. parse_unit reg U = Inr (sig, sc) \<and> sc = scale uc \<and>
           parse_unit reg (''per_'' @ U) = Inr (map (\<lambda>(d, g). (d, - g)) sig, 1 / sc)"
proof -
  have mem: "(U, uc) \<in> set config" using reg by (rule map_of_SomeD)
  have ar: "add_reciprocals config config = Inr reg" using init by (simp add: UnitRegistry_init_def)
  have l1: "map_of reg U = Some uc" using add_reciprocals_keeps[OF ar nonper] reg by simp
  have l2: "map_of reg (''per_'' @ U) = Some \<lparr>dim = dim uc, degree = - degree uc, scale = 1 / scale uc\<rparr>"
    using add_reciprocals_reciprocal[OF ar dict mem nonper] by simp
  have p1: "parse_unit reg U = Inr (if degree uc = 0 then [] else [(dim uc, degree uc)], scale uc)"
    using parse_unit_atom[OF atom l1] .
  have p2: "parse_unit reg (''per_'' @ U) =
      Inr (if degree uc = 0 then [] else [(dim uc, - degree uc)], 1 / scale uc)"
    using parse_unit_atom[OF split_unit_per[OF atom] l2] by simp
  show ?thesis using p1 p2 by auto
qed

theorem reciprocal_atom_witness:
  "UnitRegistry_init example_units = Inr example_registry
   \<and> distinct (map fst example_units)
   \<and> map_of example_units ''m'' = Some \<lparr>dim = ''length'', degree = 1, scale = 100\<rparr>
   \<and> \<not> startswith ''per_'' ''m''
   \<and> split_unit ''m'' = [''m'']
   \<and> (\<exists>sig sc. parse_unit example_registry ''m'' = Inr (sig, sc) \<and> sc = 100 \<and>
         parse_unit example_registry ''per_m'' = Inr (map (\<lambda>(d, g). (d, - g)) sig, 1 / sc))"
proof -
  have h2: "distinct (map fst example_units)" by (simp add: example_units_def)
  have h3: "map_of example_units ''m'' = Some \<lparr>dim = ''length'', degree = 1, scale = 100\<rparr>"
    by (simp add: example_units_def)
  have h4: "\<not> startswith ''per_'' ''m''" by (simp add: startswith_def)
  have h5: "split_unit ''m'' = [''m'']" by (simp add: split_unit_def)
  show ?thesis
    using reciprocal_atom[OF example_registry_init h2 h3 h4 h5] example_registry_init h2 h3 h4 h5
    by simp
qed

text \<open>
  Claim C4, as the code has it. Whenever the adjacent-merge pass returns a list, running it
  again on that list returns the same list. The range-merge pass has the same property when
  range extraction is off or when no configured pattern has a from-marker.
\<close>

theorem merge_passes_idempotent:
  "(merge_adjacent_quantities reg xs = Inr ys \<longrightarrow> merge_adjacent_quantities reg ys = Inr ys)
   \<and> ((\<not> extract_ranges self \<or> from_markers (range_patterns self) = []) \<and>
        merge_quantities_in_ranges self d us = Inr zs
        \<longrightarrow> merge_quantities_in_ranges self d zs = Inr zs)"
proof (intro conjI impI)
  assume "merge_adjacent_quantities reg xs = Inr ys"
  then have "stream (adjacent_step reg) (take 1 xs) (drop 1 xs) = Inr ys"
    by (simp add: merge_adjacent_quantities_def adjacent_loop_stream)
  from stream_idempotent[OF adjacent_step_grow this]
  show "merge_adjacent_quantities reg ys = Inr ys"
    by (simp add: merge_adjacent_quantities_def adjacent_loop_stream)
next
  assume h: "(\<not> extract_ranges self \<or> from_markers (range_patterns self) = []) \<and>
        merge_quantities_in_ranges self d us = Inr zs"
  show "merge_quantities_in_ranges self d zs = Inr zs"
  proof (cases "\<not> extract_ranges self \<or> range_patterns self = []")
    case True
    then show ?thesis by (auto simp: merge_quantities_in_ranges_def)
  next
    case False
    then have nm: "from_markers (range_patterns self) = []" using h by auto
    have "stream (range_step (unit_registry self) (range_patterns self) d) (take 1 us) (drop 1 us)
            = Inr zs"
      using h False by (auto simp: merge_quantities_in_ranges_def range_loop_stream)
    from stream_idempotent[OF range_step_grow[OF nm] this]
    show ?thesis using False by (auto simp: merge_quantities_in_ranges_def range_loop_stream)
  qed
qed

theorem merge_passes_idempotent_witness:
  "merge_adjacent_quantities example_registry
     [qspan 0 2 (SimpleQuantity 1 ''m''), qspan 2 3 (SimpleQuantity 50 ''cm'')]
     = Inr [qspan 0 3 (SimpleQuantity (3/2) ''m'')]
   \<and> merge_adjacent_quantities example_registry [qspan 0 3 (SimpleQuantity (3/2) ''m'')]
     = Inr [qspan 0 3 (SimpleQuantity (3/2) ''m'')]
   \<and> from_markers (range_patterns (example_matcher\<lparr>range_patterns := [(None, Some ''a'')]\<rparr>)) = []
   \<and> merge_quantities_in_ranges (example_matcher\<lparr>range_patterns := [(None, Some ''a'')]\<rparr>) example_doc
        [qspan 0 2 (SimpleQuantity 2 ''cm''), qspan 4 5 (SimpleQuantity 3 ''cm'')]
     = Inr [qspan 0 2 (SimpleQuantity 2 ''cm''), qspan 4 5 (SimpleQuantity 3 ''cm'')]"
proof -
  have r: "merge_quantities_in_ranges (example_matcher\<lparr>range_patterns := [(None, Some ''a'')]\<rparr>) example_doc
        [qspan 0 2 (SimpleQuantity 2 ''cm''), qspan 4 5 (SimpleQuantity 3 ''cm'')]
     = Inr [qspan 0 2 (SimpleQuantity 2 ''cm''), qspan 4 5 (SimpleQuantity 3 ''cm'')]"
    by code_simp
  have f: "from_markers (range_patterns (example_matcher\<lparr>range_patterns := [(None, Some ''a'')]\<rparr>)) = []"
    by (simp add: from_markers_def)
  show ?thesis
    using merge_passes_idempotent[where reg = example_registry
        and xs = "[qspan 0 2 (SimpleQuantity 1 ''m''), qspan 2 3 (SimpleQuantity 50 ''cm'')]"
        and ys = "[qspan 0 3 (SimpleQuantity (3/2) ''m'')]"
        and self = "example_matcher\<lparr>range_patterns := [(None, Some ''a'')]\<rparr>" and d = example_doc
        and us = "[qspan 0 2 (SimpleQuantity 2 ''cm''), qspan 4 5 (SimpleQuantity 3 ''cm'')]"
        and zs = "[qspan 0 2 (SimpleQuantity 2 ''cm''), qspan 4 5 (SimpleQuantity 3 ''cm'')]"]
      adjacent_pass_metre r f
    by simp
qed

text \<open>
  Claim C4 as stated fails for the range-merge pass. In \<^verbatim>\<open>2 cm a entre 3 et 4 cm\<close> the first
  run merges \<^verbatim>\<open>3\<close> and \<^verbatim>\<open>4 cm\<close> and moves the start of the merged span back over
  \<^verbatim>\<open>entre\<close>; the text between \<^verbatim>\<open>2 cm\<close> and the merged span is then \<^verbatim>\<open>a\<close>, a to-marker,
  and the second run merges again.
\<close>

theorem range_merge_not_idempotent_counterexample:
  "merge_quantities_in_ranges example_matcher example_doc
     [qspan 0 2 (SimpleQuantity 2 ''cm''), qspan 4 5 (SimpleQuantity 3 ''cm''),
      qspan 6 8 (SimpleQuantity 4 ''cm'')]
   = Inr [qspan 0 2 (SimpleQuantity 2 ''cm''),
          qspan 3 8 (RangeQuantity (Num 3) (Num 4) ''cm'')]
   \<and> merge_quantities_in_ranges example_matcher example_doc
     [qspan 0 2 (SimpleQuantity 2 ''cm''),
          qspan 3 8 (RangeQuantity (Num 3) (Num 4) ''cm'')]
   = Inr [qspan 0 8 (RangeQuantity (Num 2) (Tup (Num 3) (Num 4)) ''cm'')]
   \<and> merge_quantities_in_ranges example_matcher example_doc
     [qspan 0 2 (SimpleQuantity 2 ''cm''),
          qspan 3 8 (RangeQuantity (Num 3) (Num 4) ''cm'')]
   \<noteq> Inr [qspan 0 2 (SimpleQuantity 2 ''cm''),
          qspan 3 8 (RangeQuantity (Num 3) (Num 4) ''cm'')]"
  using range_pass_first_run range_pass_second_run by (simp add: qspan_def)


text \<open>
  Claim C6. For a composite key whose atoms are all registered (\<open>ucs\<close> lists their
  descriptors, in the order of the atoms), \<open>parse_unit\<close> cuts the key at the underscores
  not preceded by \<^verbatim>\<open>per\<close>, returns the product of the atoms' scales, and returns the
  signature of the specification: per dimension the single recorded degree when the recorded
  degrees are all equal and their sum otherwise, without the dimensions whose degrees sum to zero.
\<close>

theorem parse_unit_refines_spec:
  assumes "map (map_of reg) (split_unit key) = map Some ucs"
  shows "parse_unit reg key = Inr (spec_signature ucs, prod_list (map scale ucs))"
  using collect_parts_fold[OF assms, of "[]" 1] signature_refines[of ucs]
  by (simp add: parse_unit_def)

theorem parse_unit_refines_spec_witness:
  "map (map_of example_registry) (split_unit ''kg_per_m_cm'')
     = map Some [\<lparr>dim = ''mass'', degree = 1, scale = 1000\<rparr>,
                 \<lparr>dim = ''length'', degree = - 1, scale = 1 / 100\<rparr>,
                 \<lparr>dim = ''length'', degree = 1, scale = 1\<rparr>]
   \<and> split_unit ''kg_per_m_cm'' = [''kg'', ''per_m'', ''cm'']
   \<and> parse_unit example_registry ''kg_per_m_cm'' = Inr ([(''mass'', 1)], 10)"
proof -
  have s: "split_unit ''kg_per_m_cm'' = [''kg'', ''per_m'', ''cm'']"
    by (simp add: split_unit_def)
  have h: "map (map_of example_registry) (split_unit ''kg_per_m_cm'')
     = map Some [\<lparr>dim = ''mass'', degree = 1, scale = 1000\<rparr>,
                 \<lparr>dim = ''length'', degree = - 1, scale = 1 / 100\<rparr>,
                 \<lparr>dim = ''length'', degree = 1, scale = 1\<rparr>]"
    unfolding s by (simp add: example_registry_def example_units_def)
  have sg: "spec_signature [\<lparr>dim = ''mass'', degree = 1, scale = 1000\<rparr>,
                 \<lparr>dim = ''length'', degree = - 1, scale = 1 / 100\<rparr>,
                 \<lparr>dim = ''length'', degree = 1, scale = 1\<rparr>] = [(''mass'', 1)]"
    by (simp add: spec_signature_def recorded_degrees_def spec_degree_def)
  show ?thesis using parse_unit_refines_spec[OF h] h s sg by simp
qed



text \<open>
  Claim C8, as the code has it. Range extraction is on. The pass examines the pair
  \<^verbatim>\<open>(merged[-1], ent)\<close>: \<open>p\<close> is the span last placed in the output (for the first step, the
  first span of the list) and \<open>q\<close> is the next span of the list. \<open>q\<close> carries a scalar; \<open>p\<close>
  carries the value \<open>lo\<close> in the unit \<open>up\<close>: the number of a scalar, or the pair of bounds of
  a range that the pass has already built. Both units are registered; \<open>(a, b)\<close> is the first
  pattern, in registration order, whose to-marker is the text between the two spans and
  whose from-marker, if it has one, is the token before \<open>p\<close>. Then

  \<^item> if the units are homogeneous and the scale of the unit of \<open>p\<close> is not zero, the pair is
    replaced by one span that ends where \<open>q\<close> ends, starts one token before \<open>p\<close> exactly when
    \<open>a\<close> is a from-marker, has the label of \<open>q\<close> and carries the interval from \<open>lo\<close> to the
    scalar of \<open>q\<close> converted into the unit of \<open>p\<close>; for two scalars this is the interval of
    the first scalar and the converted second one;
  \<^item> if the units are not homogeneous, both spans are kept: \<open>q\<close> is appended after \<open>p\<close>;
  \<^item> if the units are homogeneous and the scale of the unit of \<open>p\<close> is zero, the division
    by zero of the conversion leaves the pass.

  Each case is stated for the list of the two spans and for any state of the loop whose
  output ends with \<open>p\<close>.
\<close>

theorem range_merge_of_scalars:
  assumes on: "extract_ranges self"
    and first: "List.find (pattern_matches
                     (if ent_start p > 0 then Some (norm_at d (ent_start p - 1)) else None)
                     (text_between d (ent_end p) (ent_start q))) (range_patterns self) = Some (a, b)"
    and vp: "value_of (ent_value p) = lo"
    and up: "unit_of (ent_value p) = up"
    and vq: "ent_value q = SimpleQuantity vq uq"
    and hq: "parse_unit (unit_registry self) uq = Inr (sgq, sq)"
    and hp: "parse_unit (unit_registry self) up = Inr (sgp, sp)"
  shows "(sgq = sgp \<and> sp \<noteq> 0 \<longrightarrow>
           merge_quantities_in_ranges self d [p, q] =
             Inr [\<lparr>ent_start = (if a = None then ent_start p else ent_start p - 1),
                   ent_end = ent_end q, ent_label = ent_label q,
                   ent_value = RangeQuantity lo (Num (vq * (sq / sp))) up\<rparr>]
         \<and> range_loop (unit_registry self) (range_patterns self) d (merged @ [p]) (q # rest) =
             range_loop (unit_registry self) (range_patterns self) d
               (merged @ [\<lparr>ent_start = (if a = None then ent_start p else ent_start p - 1),
                   ent_end = ent_end q, ent_label = ent_label q,
                   ent_value = RangeQuantity lo (Num (vq * (sq / sp))) up\<rparr>]) rest)
       \<and> (sgq \<noteq> sgp \<longrightarrow>
           merge_quantities_in_ranges self d [p, q] = Inr [p, q]
         \<and> range_loop (unit_registry self) (range_patterns self) d (merged @ [p]) (q # rest) =
             range_loop (unit_registry self) (range_patterns self) d (merged @ [p, q]) rest)
       \<and> (sgq = sgp \<and> sp = 0 \<longrightarrow>
           merge_quantities_in_ranges self d [p, q] = Inl ZeroDivisionError
         \<and> range_loop (unit_registry self) (range_patterns self) d (merged @ [p]) (q # rest) =
             Inl ZeroDivisionError)"
proof (intro conjI impI)
  have ne: "range_patterns self \<noteq> []" using first by auto
  have hp0: "parse_unit (unit_registry self) (unit_of (ent_value p)) = Inr (sgp, sp)"
    using hp up by simp
  {
    assume h: "sgq = sgp \<and> sp \<noteq> 0"
    then have hp': "parse_unit (unit_registry self) (unit_of (ent_value p)) = Inr (sgq, sp)"
      and nz: "sp \<noteq> 0"
      using hp0 by simp_all
    note s = range_step_scalars[OF first vq hq hp' nz, unfolded vp up]
    show "merge_quantities_in_ranges self d [p, q] =
             Inr [\<lparr>ent_start = (if a = None then ent_start p else ent_start p - 1),
                   ent_end = ent_end q, ent_label = ent_label q,
                   ent_value = RangeQuantity lo (Num (vq * (sq / sp))) up\<rparr>]"
      using on ne s by (simp add: merge_quantities_in_ranges_def range_loop_stream)
    show "range_loop (unit_registry self) (range_patterns self) d (merged @ [p]) (q # rest) =
             range_loop (unit_registry self) (range_patterns self) d
               (merged @ [\<lparr>ent_start = (if a = None then ent_start p else ent_start p - 1),
                   ent_end = ent_end q, ent_label = ent_label q,
                   ent_value = RangeQuantity lo (Num (vq * (sq / sp))) up\<rparr>]) rest"
      using s by (simp add: range_loop_stream)
  }
  {
    assume h: "sgq \<noteq> sgp"
    note s = range_step_not_homogeneous[OF first vq hq hp0 h]
    show "merge_quantities_in_ranges self d [p, q] = Inr [p, q]"
      using on ne s by (simp add: merge_quantities_in_ranges_def range_loop_stream)
    show "range_loop (unit_registry self) (range_patterns self) d (merged @ [p]) (q # rest) =
             range_loop (unit_registry self) (range_patterns self) d (merged @ [p, q]) rest"
      using s by (simp add: range_loop_stream)
  }
  {
    assume h: "sgq = sgp \<and> sp = 0"
    then have hp': "parse_unit (unit_registry self) (unit_of (ent_value p)) = Inr (sgq, 0)"
      using hp0 by simp
    note s = range_step_zero_scale[OF first vq hq hp']
    show "merge_quantities_in_ranges self d [p, q] = Inl ZeroDivisionError"
      using on ne s by (simp add: merge_quantities_in_ranges_def range_loop_stream)
    show "range_loop (unit_registry self) (range_patterns self) d (merged @ [p]) (q # rest) =
             Inl ZeroDivisionError"
      using s by (simp add: range_loop_stream)
  }
qed

text \<open>
  The theorem at three inputs: in \<^verbatim>\<open>2 cm a entre 3 et 4 m\<close> (the last unit read as metres)
  the spans of \<^verbatim>\<open>3 cm\<close> and \<^verbatim>\<open>4 m\<close> become the interval from 3 to 400 centimetres that starts
  at \<^verbatim>\<open>entre\<close>; in \<^verbatim>\<open>2 kg a 3 cm\<close> the spans are kept; in \<^verbatim>\<open>1 cm a 2 cm a 3 cm\<close> the range
  already built from the first two spans and the span of \<^verbatim>\<open>3 cm\<close> become one span, whose
  interval has that range as its lower bound.
\<close>

theorem range_merge_of_scalars_witness:
  "List.find (pattern_matches
       (if ent_start (qspan 4 5 (SimpleQuantity 3 ''cm'')) > 0
        then Some (norm_at example_doc (ent_start (qspan 4 5 (SimpleQuantity 3 ''cm'')) - 1)) else None)
       (text_between example_doc (ent_end (qspan 4 5 (SimpleQuantity 3 ''cm'')))
          (ent_start (qspan 6 8 (SimpleQuantity 4 ''m''))))) (range_patterns example_matcher)
     = Some (Some ''entre'', Some ''et'')
   \<and> merge_quantities_in_ranges example_matcher example_doc
       [qspan 4 5 (SimpleQuantity 3 ''cm''), qspan 6 8 (SimpleQuantity 4 ''m'')]
     = Inr [qspan 3 8 (RangeQuantity (Num 3) (Num 400) ''cm'')]
   \<and> List.find (pattern_matches
       (if ent_start (qspan 0 2 (SimpleQuantity 2 ''kg'')) > 0
        then Some (norm_at kg_cm_doc (ent_start (qspan 0 2 (SimpleQuantity 2 ''kg'')) - 1)) else None)
       (text_between kg_cm_doc (ent_end (qspan 0 2 (SimpleQuantity 2 ''kg'')))
          (ent_start (qspan 3 5 (SimpleQuantity 3 ''cm''))))) (range_patterns a_matcher)
     = Some (None, Some ''a'')
   \<and> merge_quantities_in_ranges a_matcher kg_cm_doc
       [qspan 0 2 (SimpleQuantity 2 ''kg''), qspan 3 5 (SimpleQuantity 3 ''cm'')]
     = Inr [qspan 0 2 (SimpleQuantity 2 ''kg''), qspan 3 5 (SimpleQuantity 3 ''cm'')]
   \<and> List.find (pattern_matches
       (if ent_start (qspan 0 5 (RangeQuantity (Num 1) (Num 2) ''cm'')) > 0
        then Some (norm_at chain_doc
                     (ent_start (qspan 0 5 (RangeQuantity (Num 1) (Num 2) ''cm'')) - 1)) else None)
       (text_between chain_doc (ent_end (qspan 0 5 (RangeQuantity (Num 1) (Num 2) ''cm'')))
          (ent_start (qspan 6 8 (SimpleQuantity 3 ''cm''))))) (range_patterns a_matcher)
     = Some (None, Some ''a'')
   \<and> merge_quantities_in_ranges a_matcher chain_doc
       [qspan 0 5 (RangeQuantity (Num 1) (Num 2) ''cm''), qspan 6 8 (SimpleQuantity 3 ''cm'')]
     = Inr [qspan 0 8 (RangeQuantity (Tup (Num 1) (Num 2)) (Num 3) ''cm'')]"
proof -
  let ?p = "qspan 4 5 (SimpleQuantity 3 ''cm'')" and ?q = "qspan 6 8 (SimpleQuantity 4 ''m'')"
  let ?k = "qspan 0 2 (SimpleQuantity 2 ''kg'')" and ?c = "qspan 3 5 (SimpleQuantity 3 ''cm'')"
  let ?r = "qspan 0 5 (RangeQuantity (Num 1) (Num 2) ''cm'')"
  let ?t = "qspan 6 8 (SimpleQuantity 3 ''cm'')"
  have f: "List.find (pattern_matches
       (if ent_start ?p > 0 then Some (norm_at example_doc (ent_start ?p - 1)) else None)
       (text_between example_doc (ent_end ?p) (ent_start ?q))) (range_patterns example_matcher)
     = Some (Some ''entre'', Some ''et'')"
    by (simp add: qspan_def example_doc_def doc_of_tokens_def slice_def example_patterns_def
        pattern_matches_def example_matcher_def)
  have g: "List.find (pattern_matches
       (if ent_start ?k > 0 then Some (norm_at kg_cm_doc (ent_start ?k - 1)) else None)
       (text_between kg_cm_doc (ent_end ?k) (ent_start ?c))) (range_patterns a_matcher)
     = Some (None, Some ''a'')"
    by (simp add: qspan_def kg_cm_doc_def doc_of_tokens_def slice_def a_matcher_def
        pattern_matches_def example_matcher_def)
  have h: "List.find (pattern_matches
       (if ent_start ?r > 0 then Some (norm_at chain_doc (ent_start ?r - 1)) else None)
       (text_between chain_doc (ent_end ?r) (ent_start ?t))) (range_patterns a_matcher)
     = Some (None, Some ''a'')"
    by (simp add: qspan_def chain_doc_def doc_of_tokens_def slice_def a_matcher_def
        pattern_matches_def example_matcher_def)
  have vp: "value_of (ent_value ?p) = Num 3" "unit_of (ent_value ?p) = ''cm''"
    by (simp_all add: qspan_def)
  have vq: "ent_value ?q = SimpleQuantity 4 ''m''" by (simp add: qspan_def)
  have vk: "value_of (ent_value ?k) = Num 2" "unit_of (ent_value ?k) = ''kg''"
    by (simp_all add: qspan_def)
  have vc: "ent_value ?c = SimpleQuantity 3 ''cm''" by (simp add: qspan_def)
  have vr: "value_of (ent_value ?r) = Tup (Num 1) (Num 2)" "unit_of (ent_value ?r) = ''cm''"
    by (simp_all add: qspan_def)
  have vt: "ent_value ?t = SimpleQuantity 3 ''cm''" by (simp add: qspan_def)
  have t: "extract_ranges example_matcher" by (simp add: example_matcher_def)
  have r: "unit_registry example_matcher = example_registry" by (simp add: example_matcher_def)
  have t': "extract_ranges a_matcher" by (simp add: a_matcher_def example_matcher_def)
  have r': "unit_registry a_matcher = example_registry"
    by (simp add: a_matcher_def example_matcher_def)
  have one: "merge_quantities_in_ranges example_matcher example_doc [?p, ?q]
     = Inr [qspan 3 8 (RangeQuantity (Num 3) (Num 400) ''cm'')]"
    using range_merge_of_scalars[where self = example_matcher and merged = "[]" and rest = "[]",
        OF t f vp vq parse_m[folded r] parse_cm[folded r]]
    by (simp add: qspan_def)
  have two: "merge_quantities_in_ranges a_matcher kg_cm_doc [?k, ?c] = Inr [?k, ?c]"
    using range_merge_of_scalars[where self = a_matcher and merged = "[]" and rest = "[]",
        OF t' g vk vc parse_cm[folded r'] parse_kg[folded r']]
    by simp
  have three: "merge_quantities_in_ranges a_matcher chain_doc [?r, ?t]
     = Inr [qspan 0 8 (RangeQuantity (Tup (Num 1) (Num 2)) (Num 3) ''cm'')]"
    using range_merge_of_scalars[where self = a_matcher and merged = "[]" and rest = "[]",
        OF t' h vr vt parse_cm[folded r'] parse_cm[folded r']]
    by (simp add: qspan_def)
  show ?thesis using f one g two h three by (intro conjI)
qed

text \<open>
  Claim C8 as stated fails in two ways. In \<^verbatim>\<open>2 kg a 3 cm\<close> the pattern \<^verbatim>\<open>(None, "a")\<close>
  matches, the units are not homogeneous, the conversion raises, the handler catches it, and
  both spans are kept. In \<^verbatim>\<open>1 cm a 2 cm a 3 cm\<close> the neighbouring spans of \<^verbatim>\<open>2 cm\<close> and
  \<^verbatim>\<open>3 cm\<close> meet every condition of the claim, and alone they become the interval from 2 to 3;
  but in the list of the three spans the pass pairs \<^verbatim>\<open>3 cm\<close> with the range already built from
  \<^verbatim>\<open>1 cm\<close> and \<^verbatim>\<open>2 cm\<close>, and returns one span whose interval has that range as its lower
  bound.
\<close>

theorem range_merge_pairs_counterexample:
  "List.find (pattern_matches
       (if ent_start (qspan 0 2 (SimpleQuantity 2 ''kg'')) > 0
        then Some (norm_at kg_cm_doc (ent_start (qspan 0 2 (SimpleQuantity 2 ''kg'')) - 1)) else None)
       (text_between kg_cm_doc (ent_end (qspan 0 2 (SimpleQuantity 2 ''kg'')))
          (ent_start (qspan 3 5 (SimpleQuantity 3 ''cm''))))) (range_patterns a_matcher)
     = Some (None, Some ''a'')
   \<and> merge_quantities_in_ranges a_matcher kg_cm_doc
       [qspan 0 2 (SimpleQuantity 2 ''kg''), qspan 3 5 (SimpleQuantity 3 ''cm'')]
     = Inr [qspan 0 2 (SimpleQuantity 2 ''kg''), qspan 3 5 (SimpleQuantity 3 ''cm'')]
   \<and> List.find (pattern_matches
       (if ent_start (qspan 3 5 (SimpleQuantity 2 ''cm'')) > 0
        then Some (norm_at chain_doc (ent_start (qspan 3 5 (SimpleQuantity 2 ''cm'')) - 1)) else None)
       (text_between chain_doc (ent_end (qspan 3 5 (SimpleQuantity 2 ''cm'')))
          (ent_start (qspan 6 8 (SimpleQuantity 3 ''cm''))))) (range_patterns a_matcher)
     = Some (None, Some ''a'')
   \<and> merge_quantities_in_ranges a_matcher chain_doc
       [qspan 3 5 (SimpleQuantity 2 ''cm''), qspan 6 8 (SimpleQuantity 3 ''cm'')]
     = Inr [qspan 3 8 (RangeQuantity (Num 2) (Num 3) ''cm'')]
   \<and> merge_quantities_in_ranges a_matcher chain_doc
       [qspan 0 2 (SimpleQuantity 1 ''cm''), qspan 3 5 (SimpleQuantity 2 ''cm''),
        qspan 6 8 (SimpleQuantity 3 ''cm'')]
     = Inr [qspan 0 8 (RangeQuantity (Tup (Num 1) (Num 2)) (Num 3) ''cm'')]"
  by code_simp
text \<open>
  Claim C9. The loop over the matches of a document has reached the number at index \<open>i\<close>
  in state \<open>st\<close>; the number has a value and the strategies resolve the unit string \<open>u\<close>,
  one atom of which is absent from the registry. Then \<open>parse_unit\<close> fails with a
  \<^verbatim>\<open>KeyError\<close>, the body of the loop for this number returns the state unchanged (no
  quantity is stored and nothing is raised), and, when the extraction returns, the number is
  in the list of unmatched spans.
\<close>

theorem unknown_unit_is_skipped:
  assumes env: "env = link_env_of self d ev tables ms unit_labels snippet_start snippet_end"
    and i: "i < length ms" and mi: "ms ! i = (number, is_sent_split)"
    and lbl: "span_label number \<in> set (number_label_hashes self)"
    and reach: "link_loop env (initial_state ms) [0..<i] = Inr st"
    and v: "parse_value env number = Inr v"
    and r: "resolve_unit env st i number v = Inr (unit_idx, unit_text, Some u)"
    and atom: "\<exists>a \<in> set (split_unit u). map_of (unit_registry self) a = None"
    and total: "extract_quantities self d ev tables ms unit_labels snippet_start snippet_end
                  = Inr (qs, um)"
  shows "(\<exists>k. parse_unit (unit_registry self) u = Inl (KeyError k))
         \<and> link_number env st i = Inr st
         \<and> number \<in> set um"
proof -
  have em: "env_matcher env = self" using env by simp
  from parse_unit_missing[OF atom] obtain k where
    k: "parse_unit (unit_registry self) u = Inl (KeyError k)" by blast
  from link_loop_frame[OF reach] have
    len: "length (matches st) = length ms" and same: "matches st ! i = ms ! i"
    and num: "matched_number_indices st \<subseteq> set [0..<i]"
    by (auto simp: initial_state_def)
  have dr: "drop i (matches st) = (number, is_sent_split) # drop (Suc i) (matches st)"
    using Cons_nth_drop_Suc[of i "matches st"] i len same mi by simp
  have ln: "link_number env st i = Inr st"
    using link_number_unknown_unit[OF dr v r] k em by simp
  from total obtain stf where
    lf: "link_loop env (initial_state ms) [0..<length ms] = Inr stf"
    and um: "um = unmatched env stf"
    by (auto simp: extract_quantities_def env Let_def split: sum.splits)
  have sp: "[0..<length ms] = [0..<i] @ i # [Suc i..<length ms]"
    using i by (metis le_add2 le_add_same_cancel2 less_imp_add_positive upt_add_eq_append
        upt_conv_Cons)
  have rest: "link_loop env st [Suc i..<length ms] = Inr stf"
    using lf reach ln unfolding sp by (simp add: link_loop_append)
  from link_loop_frame[OF rest] have
    len': "length (matches stf) = length ms" and same': "matches stf ! i = ms ! i"
    and sub: "matched_number_indices stf \<subseteq> set [Suc i..<length ms] \<union> matched_number_indices st"
    using len same by auto
  have num': "i \<notin> matched_number_indices stf"
  proof
    assume "i \<in> matched_number_indices stf"
    then have "i \<in> set [Suc i..<length ms] \<or> i \<in> matched_number_indices st" using sub by blast
    then show False using num by auto
  qed
  have "number \<in> set (unmatched env stf)"
    using unmatched_number[of i stf number is_sent_split env] i len' same' mi lbl em num' by simp
  then show ?thesis using k ln um by simp
qed


theorem unknown_unit_is_skipped_witness:
  "(2::nat) < length poids_matches
   \<and> poids_matches ! 2 = mspan 2 3 ''number'' ''65''
   \<and> span_label (fst (mspan 2 3 ''number'' ''65'')) \<in> set (number_label_hashes xyz_matcher)
   \<and> link_loop (link_env_of xyz_matcher poids_doc example_eval [] poids_matches [] 0 3)
        (initial_state poids_matches) [0..<2] = Inr (initial_state poids_matches)
   \<and> parse_value (link_env_of xyz_matcher poids_doc example_eval [] poids_matches [] 0 3)
        (fst (mspan 2 3 ''number'' ''65'')) = Inr 65
   \<and> resolve_unit (link_env_of xyz_matcher poids_doc example_eval [] poids_matches [] 0 3)
        (initial_state poids_matches) 2 (fst (mspan 2 3 ''number'' ''65'')) 65
        = Inr (None, None, Some ''xyz'')
   \<and> (\<exists>a \<in> set (split_unit ''xyz''). map_of (unit_registry xyz_matcher) a = None)
   \<and> extract_quantities xyz_matcher poids_doc example_eval [] poids_matches [] 0 3
        = Inr ([], [fst (mspan 2 3 ''number'' ''65'')])
   \<and> link_number (link_env_of xyz_matcher poids_doc example_eval [] poids_matches [] 0 3)
        (initial_state poids_matches) 2 = Inr (initial_state poids_matches)
   \<and> fst (mspan 2 3 ''number'' ''65'') \<in> set [fst (mspan 2 3 ''number'' ''65'')]"
proof -
  let ?env = "link_env_of xyz_matcher poids_doc example_eval [] poids_matches [] 0 3"
  let ?n = "fst (mspan 2 3 ''number'' ''65'')"
  have h1: "(2::nat) < length poids_matches" by (simp add: poids_matches_def)
  have h2: "poids_matches ! 2 = (?n, False)" by (simp add: poids_matches_def mspan_def)
  have h3: "span_label ?n \<in> set (number_label_hashes xyz_matcher)" by code_simp
  have h4: "link_loop ?env (initial_state poids_matches) [0..<2] = Inr (initial_state poids_matches)"
    by code_simp
  have h5: "parse_value ?env ?n = Inr 65" by code_simp
  have h6: "resolve_unit ?env (initial_state poids_matches) 2 ?n 65 = Inr (None, None, Some ''xyz'')"
    by code_simp
  have h7: "\<exists>a \<in> set (split_unit ''xyz''). map_of (unit_registry xyz_matcher) a = None"
    by code_simp
  have h8: "extract_quantities xyz_matcher poids_doc example_eval [] poids_matches [] 0 3
        = Inr ([], [?n])" by code_simp
  have e: "?env = link_env_of xyz_matcher poids_doc example_eval [] poids_matches [] 0 3" by simp
  from unknown_unit_is_skipped[OF e h1 h2 h3 h4 h5 h6 h7 h8] h1 h2 h3 h4 h5 h6 h7 h8
  show ?thesis by (simp add: mspan_def)
qed

text \<open>
  Claim C10. A \<^verbatim>\<open>SimpleQuantity\<close> compared with a value that is not a \<^verbatim>\<open>SimpleQuantity\<close>
  (any other object, or a \<^verbatim>\<open>RangeQuantity\<close>) gives \<^verbatim>\<open>False\<close> and raises nothing, whatever
  the registry and the units; likewise a \<^verbatim>\<open>RangeQuantity\<close> compared with a value that is not a
  \<^verbatim>\<open>RangeQuantity\<close>. A scalar and an interval are never equal.
\<close>

theorem eq_other_class_is_False:
  "quantity_eq reg (SimpleQuantity v u) (Other x) = Inr False
   \<and> quantity_eq reg (SimpleQuantity v u) (Quantity (RangeQuantity a b u')) = Inr False
   \<and> quantity_eq reg (RangeQuantity a b u) (Other x) = Inr False
   \<and> quantity_eq reg (RangeQuantity a b u) (Quantity (SimpleQuantity v u')) = Inr False"
  by simp

end
